theory Spec2Isabelle
  imports Main "HOL-Library.AList"
begin

section \<open>Notification strategies: pkg/notify and pkg/notify/init\<close>

text \<open>
  A Go map is an association list whose keys are pairwise distinct; ranging over the map
  visits the list in its order (Go leaves the order open, so a statement proved for every
  list holds for every order). A lookup is \<open>map_of\<close>, a store is \<open>AList.update\<close>.
\<close>

type_synonym 'v gomap = "(string \<times> 'v) list"

definition TaskStateUpdateKey :: string where
  "TaskStateUpdateKey = ''task_state_update''"

definition TaskStepUpdateKey :: string where
  "TaskStepUpdateKey = ''task_step_update''"

definition TaskValidationKey :: string where
  "TaskValidationKey = ''task_validation''"

text \<open>
  Modelled from the spec: the four strategy constants of package utask, whose declaration
  is not among the sources; the values are the strategy names the spec lists.
\<close>

definition NotificationStrategyAlways :: string where
  "NotificationStrategyAlways = ''always''"

definition NotificationStrategySilent :: string where
  "NotificationStrategySilent = ''silent''"

definition NotificationStrategyFailureOnly :: string where
  "NotificationStrategyFailureOnly = ''failure_only''"

definition NotificationStrategyFailureOrDone :: string where
  "NotificationStrategyFailureOrDone = ''failure_or_done''"

record TemplateNotificationStrategy =
  Templates :: "string list"
  NotificationStrategy :: string

text \<open>
  utask.NotifyBackend. The default strategy map may be nil (\<open>None\<close>); the per-template map
  is only ranged over, so nil and empty coincide.
\<close>

record NotifyBackend =
  Type :: string
  DefaultNotificationStrategy :: "string gomap option"
  TemplateNotificationStrategies :: "TemplateNotificationStrategy list gomap"
  Config :: string

datatype strategy_error = errNotAllowed | errUnknown

definition validateStrategyForAction :: "string \<Rightarrow> string \<Rightarrow> strategy_error option" where
  "validateStrategyForAction action strategy =
     (if strategy = NotificationStrategyAlways \<or> strategy = NotificationStrategySilent then None
      else if strategy = NotificationStrategyFailureOnly then
        (if action = TaskValidationKey then Some errNotAllowed else None)
      else if strategy = NotificationStrategyFailureOrDone then
        (if action = TaskValidationKey then Some errNotAllowed else None)
      else Some errUnknown)"

definition validateActionName :: "string \<Rightarrow> bool" where
  "validateActionName action \<longleftrightarrow>
     action = TaskValidationKey \<or> action = TaskStateUpdateKey \<or> action = TaskStepUpdateKey"

text \<open>The errors of \<open>validateAndNormalizeNotificationStrategy\<close>, one constructor a message.\<close>

datatype strategy_failure =
    InvalidDefaultAction string
  | DefaultNotAllowed string string
  | DefaultUnknown "string gomap"
  | InvalidTemplateAction string
  | TemplateNotAllowed "string list" string string
  | TemplateUnknown "string list" string

text \<open>The first loop: every key of the default map is an action name.\<close>

fun check_default_actions :: "string gomap \<Rightarrow> strategy_failure option" where
  "check_default_actions [] = None"
| "check_default_actions ((action, s) # rest) =
     (if \<not> validateActionName action then Some (InvalidDefaultAction action)
      else check_default_actions rest)"

text \<open>The innermost loop, over the strategies configured for one action.\<close>

fun check_strats :: "string \<Rightarrow> TemplateNotificationStrategy list \<Rightarrow> strategy_failure option" where
  "check_strats action [] = None"
| "check_strats action (strat # rest) =
     (case validateStrategyForAction action (NotificationStrategy strat) of
        Some errNotAllowed \<Rightarrow>
          Some (TemplateNotAllowed (Templates strat) action (NotificationStrategy strat))
      | Some errUnknown \<Rightarrow> Some (TemplateUnknown (Templates strat) (NotificationStrategy strat))
      | None \<Rightarrow> check_strats action rest)"

fun check_template_strategies ::
  "TemplateNotificationStrategy list gomap \<Rightarrow> strategy_failure option" where
  "check_template_strategies [] = None"
| "check_template_strategies ((action, strats) # rest) =
     (if \<not> validateActionName action then Some (InvalidTemplateAction action)
      else case check_strats action strats of
             Some e \<Rightarrow> Some e
           | None \<Rightarrow> check_template_strategies rest)"

text \<open>
  The loop over the three action names. Each round makes the default map if it is nil,
  fills in \<open>always\<close> for a missing action, validates the default strategy of the action
  and then the whole per-template map.
\<close>

fun normalize_actions ::
  "string list \<Rightarrow> NotifyBackend \<Rightarrow> NotifyBackend \<times> strategy_failure option" where
  "normalize_actions [] ncfg = (ncfg, None)"
| "normalize_actions (action # rest) ncfg =
     (let m = (case DefaultNotificationStrategy ncfg of None \<Rightarrow> [] | Some d \<Rightarrow> d);
          m' = (case map_of m action of
                  Some s \<Rightarrow> m
                | None \<Rightarrow> AList.update action NotificationStrategyAlways m);
          defaultStrategy = (case map_of m action of
                  Some s \<Rightarrow> s
                | None \<Rightarrow> NotificationStrategyAlways);
          ncfg' = ncfg\<lparr>DefaultNotificationStrategy := Some m'\<rparr>
      in case validateStrategyForAction action defaultStrategy of
           Some errNotAllowed \<Rightarrow> (ncfg', Some (DefaultNotAllowed action defaultStrategy))
         | Some errUnknown \<Rightarrow> (ncfg', Some (DefaultUnknown m'))
         | None \<Rightarrow>
             (case check_template_strategies (TemplateNotificationStrategies ncfg') of
                Some e \<Rightarrow> (ncfg', Some e)
              | None \<Rightarrow> normalize_actions rest ncfg'))"

definition validateAndNormalizeNotificationStrategy ::
  "NotifyBackend \<Rightarrow> NotifyBackend \<times> strategy_failure option" where
  "validateAndNormalizeNotificationStrategy ncfg =
     (case check_default_actions
             (case DefaultNotificationStrategy ncfg of None \<Rightarrow> [] | Some d \<Rightarrow> d) of
        Some e \<Rightarrow> (ncfg, Some e)
      | None \<Rightarrow>
          normalize_actions [TaskValidationKey, TaskStateUpdateKey, TaskStepUpdateKey] ncfg)"

text \<open>
  The default map as it is read: a nil map reads as an empty one. The strategy in force
  for an action is the configured one, \<open>always\<close> when there is none.
\<close>

definition default_map :: "NotifyBackend \<Rightarrow> string gomap" where
  "default_map ncfg = (case DefaultNotificationStrategy ncfg of None \<Rightarrow> [] | Some d \<Rightarrow> d)"

definition strategy_of :: "string gomap \<Rightarrow> string \<Rightarrow> string" where
  "strategy_of m action =
     (case map_of m action of Some s \<Rightarrow> s | None \<Rightarrow> NotificationStrategyAlways)"

subsection \<open>The sender registry and Init\<close>

record 's notificationBackend =
  sender :: 's
  defaultNotificationStrategy :: "string gomap option"
  templateNotificationStrategies :: "TemplateNotificationStrategy list gomap"

text \<open>The package variables \<open>senders\<close> and \<open>actions\<close> of pkg/notify.\<close>

record ('s, 'a) notify_state =
  senders :: "'s notificationBackend gomap"
  actions :: 'a

definition RegisterSender ::
  "string \<Rightarrow> 's \<Rightarrow> string gomap option \<Rightarrow> TemplateNotificationStrategy list gomap \<Rightarrow>
   's notificationBackend gomap \<Rightarrow> 's notificationBackend gomap" where
  "RegisterSender name s d t reg =
     AList.update name
       \<lparr>sender = s, defaultNotificationStrategy = d, templateNotificationStrategies = t\<rparr> reg"

text \<open>The part of utask.Cfg that the two Init functions read.\<close>

record 'a Cfg =
  NotifyConfig :: "NotifyBackend gomap"
  NotifyActions :: 'a
  AdminUsernames :: "string list"
  AdminGroups :: "string list"

datatype init_error =
    ConfigFailure string
  | StrategyFailure strategy_failure
  | SenderFailure string string string
  | UnknownBackendType string

text \<open>
  Modelled from the spec: the backend type names of the packages opsgenie, slack and
  webhook, whose sources are absent; the spec names the backend types.
\<close>

definition opsgenie_Type :: string where
  "opsgenie_Type = ''opsgenie''"

definition slack_Type :: string where
  "slack_Type = ''slack''"

definition webhook_Type :: string where
  "webhook_Type = ''webhook''"

text \<open>
  The loop of Init over the configured backends. What the three branches of the switch do
  with the backend's own configuration (decoding it, fetching credentials, building the
  sender) is the parameter \<open>mk\<close>: it yields the sender or the error Init returns.
\<close>

fun init_backends ::
  "(string \<Rightarrow> NotifyBackend \<Rightarrow> init_error + 's) \<Rightarrow> NotifyBackend gomap \<Rightarrow>
   's notificationBackend gomap \<Rightarrow> init_error option \<times> 's notificationBackend gomap" where
  "init_backends mk [] reg = (None, reg)"
| "init_backends mk ((name, ncfg) # rest) reg =
     (case validateAndNormalizeNotificationStrategy ncfg of
        (newncfg, Some e) \<Rightarrow> (Some (StrategyFailure e), reg)
      | (newncfg, None) \<Rightarrow>
          (let ncfg' = ncfg\<lparr>DefaultNotificationStrategy :=
                             DefaultNotificationStrategy newncfg\<rparr>
           in if Type ncfg' = opsgenie_Type \<or> Type ncfg' = slack_Type
                 \<or> Type ncfg' = webhook_Type then
                (case mk name ncfg' of
                   Inl e \<Rightarrow> (Some e, reg)
                 | Inr s \<Rightarrow>
                     init_backends mk rest
                       (RegisterSender name s (DefaultNotificationStrategy ncfg')
                          (TemplateNotificationStrategies ncfg') reg))
              else (Some (UnknownBackendType (Type ncfg')), reg)))"

text \<open>
  Init of pkg/notify/init. \<open>cfgres\<close> is what \<open>utask.Config(store)\<close> returns. The result is the
  error, if any, and the registry as Init leaves it.
\<close>

definition notify_Init ::
  "(string \<Rightarrow> NotifyBackend \<Rightarrow> init_error + 's) \<Rightarrow> init_error + 'a Cfg \<Rightarrow>
   ('s, 'a) notify_state \<Rightarrow> init_error option \<times> ('s, 'a) notify_state" where
  "notify_Init mk cfgres st =
     (case cfgres of
        Inl e \<Rightarrow> (Some e, st)
      | Inr cfg \<Rightarrow>
          (case init_backends mk (NotifyConfig cfg) (senders st) of
             (Some e, reg) \<Rightarrow> (Some e, st\<lparr>senders := reg\<rparr>)
           | (None, reg) \<Rightarrow> (None, st\<lparr>senders := reg, actions := NotifyActions cfg\<rparr>)))"

subsection \<open>Send\<close>

record NotifyActionsParameters =
  Disabled :: bool
  NotifyBackends :: "string list"

text \<open>
  What Send does is the sequence of its calls: \<open>Checked name\<close> when it asks
  \<open>checkIfDeliverMessage\<close> about the sender registered as \<open>name\<close>, \<open>Sent s name\<close> when it
  starts \<open>s.Send(m, name)\<close>. \<open>checkIfDeliverMessage\<close> is in a file that is not among the
  sources: it is the parameter \<open>chk\<close>.
\<close>

datatype 's send_event = Checked string | Sent 's string

fun send_any ::
  "('m \<Rightarrow> 's notificationBackend \<Rightarrow> bool) \<Rightarrow> 'm \<Rightarrow> 's notificationBackend gomap \<Rightarrow>
   's send_event list" where
  "send_any chk m [] = []"
| "send_any chk m ((name, s) # rest) =
     (if chk m s then [Checked name, Sent (sender s) name] else [Checked name])
     @ send_any chk m rest"

fun send_named ::
  "('m \<Rightarrow> 's notificationBackend \<Rightarrow> bool) \<Rightarrow> 'm \<Rightarrow> string \<Rightarrow>
   's notificationBackend gomap \<Rightarrow> 's send_event list" where
  "send_named chk m n [] = []"
| "send_named chk m n ((nsname, ns) # rest) =
     (if n = nsname then
        (if chk m ns then [Checked nsname, Sent (sender ns) nsname] else [Checked nsname])
      else [])
     @ send_named chk m n rest"

fun send_backends ::
  "('m \<Rightarrow> 's notificationBackend \<Rightarrow> bool) \<Rightarrow> 'm \<Rightarrow> string list \<Rightarrow>
   's notificationBackend gomap \<Rightarrow> 's send_event list" where
  "send_backends chk m [] reg = []"
| "send_backends chk m (n # ns) reg = send_named chk m n reg @ send_backends chk m ns reg"

definition Send ::
  "('m \<Rightarrow> 's notificationBackend \<Rightarrow> bool) \<Rightarrow> 's notificationBackend gomap \<Rightarrow> 'm \<Rightarrow>
   NotifyActionsParameters \<Rightarrow> 's send_event list" where
  "Send chk reg m params =
     (if Disabled params then []
      else if length (NotifyBackends params) = 0 then send_any chk m reg
      else send_backends chk m (NotifyBackends params) reg)"

section \<open>Authorization: pkg/auth\<close>

text \<open>
  The errors of github.com/juju/errors by kind, as far as the sources make them:
  \<open>Forbiddenf\<close>, \<open>NewNotValid\<close>, \<open>BadRequestf\<close>, and the kindless \<open>New\<close> and \<open>Errorf\<close>.
\<close>

datatype error =
    Forbidden string
  | NotValid string
  | BadRequest string
  | Plain string

text \<open>The two values a request context carries; either may be missing.\<close>

record auth_ctx =
  identity :: "string option"
  groups :: "string list option"

text \<open>The package variables \<open>adminUsers\<close> and \<open>adminGroups\<close>.\<close>

record auth_state =
  adminUsers :: "string list"
  adminGroups :: "string list"

definition WithIdentity :: "auth_ctx \<Rightarrow> string \<Rightarrow> auth_ctx" where
  "WithIdentity c ident = c\<lparr>identity := Some ident\<rparr>"

definition WithGroups :: "auth_ctx \<Rightarrow> string list \<Rightarrow> auth_ctx" where
  "WithGroups c gs = c\<lparr>groups := Some gs\<rparr>"

definition GetIdentity :: "auth_ctx \<Rightarrow> string" where
  "GetIdentity c = (case identity c of Some ident \<Rightarrow> ident | None \<Rightarrow> [])"

definition GetGroups :: "auth_ctx \<Rightarrow> string list" where
  "GetGroups c = (case groups c of Some gs \<Rightarrow> gs | None \<Rightarrow> [])"

definition auth_Init :: "error + 'a Cfg \<Rightarrow> auth_state \<Rightarrow> error option \<times> auth_state" where
  "auth_Init cfgres st =
     (case cfgres of
        Inl e \<Rightarrow> (Some e, st)
      | Inr cfg \<Rightarrow>
          if length (AdminUsernames cfg) < 1 \<and> length (AdminGroups cfg) < 1
          then (Some (Plain ''Admin user list can't be empty''), st)
          else (None, \<lparr>adminUsers = AdminUsernames cfg, adminGroups = AdminGroups cfg\<rparr>))"

text \<open>
  Modelled from the spec: \<open>utils.ListContainsString\<close> and \<open>utils.HasIntersection\<close> of
  pkg/utils, which is not among the sources. The spec's authorization model speaks of
  identity sets: the first says whether the string is an element of the list, the second
  whether the two lists have an element in common.
\<close>

definition ListContainsString :: "string list \<Rightarrow> string \<Rightarrow> bool" where
  "ListContainsString l s \<longleftrightarrow> s \<in> set l"

definition HasIntersection :: "string list \<Rightarrow> string list \<Rightarrow> bool" where
  "HasIntersection a b \<longleftrightarrow> (\<exists>x \<in> set a. x \<in> set b)"

text \<open>
  Modelled from the spec: the states of a task and of a resolution, constants of the
  packages models/task and models/resolution, which are not among the sources.
\<close>

datatype task_state =
    task_StateTODO
  | task_StateBlocked
  | task_StateRunning
  | task_StateWaiting
  | task_StateDone
  | task_StateCancelled
  | task_StateWontfix

datatype resolution_state =
    resolution_StateTODO
  | resolution_StateRunning
  | resolution_StateWaiting
  | resolution_StatePaused
  | resolution_StateCancelled
  | resolution_StateCrashed
  | resolution_StateDone
  | resolution_StateError
  | resolution_StateBlockedBadRequest
  | resolution_StateBlockedFatal
  | resolution_StateBlockedMaxRetries
  | resolution_StateToAutorun
  | resolution_StateRetryNow

text \<open>
  The fields of \<open>task.Task\<close>, \<open>tasktemplate.TaskTemplate\<close> and \<open>resolution.Resolution\<close> that
  the sources read or write. A pointer field is an option, \<open>None\<close> for nil. The result of
  the template's method \<open>IsAutoRunnable\<close> is the field \<open>AutoRunnable\<close>.
\<close>

record Task =
  PublicID :: string
  RequesterUsername :: string
  WatcherUsernames :: "string list"
  WatcherGroups :: "string list"
  ResolverUsernames :: "string list"
  ResolverGroups :: "string list"
  State :: task_state
  Tags :: "string gomap option"
  BatchID :: "int option"
  Resolution :: "string option"
  Comments :: "string list"

record TaskTemplate =
  Name :: string
  Blocked :: bool
  AutoRunnable :: bool
  AllowAllResolverUsernames :: bool
  AllowedResolverUsernames :: "string list"
  AllowedResolverGroups :: "string list"

record Resolution =
  ResolutionPublicID :: string
  ResolverUsername :: string
  ResolutionState :: resolution_state

definition IsAdmin :: "auth_state \<Rightarrow> auth_ctx \<Rightarrow> error option" where
  "IsAdmin st c =
     (if ListContainsString (adminUsers st) (GetIdentity c) then None
      else if HasIntersection (adminGroups st) (GetGroups c) then None
      else Some (Forbidden ''Not an admin user''))"

definition IsRequester :: "auth_ctx \<Rightarrow> Task \<Rightarrow> error option" where
  "IsRequester c t =
     (if RequesterUsername t \<noteq> GetIdentity c
      then Some (Forbidden ''User is not requester of this task'')
      else None)"

definition IsWatcher :: "auth_ctx \<Rightarrow> Task \<Rightarrow> error option" where
  "IsWatcher c t =
     (if ListContainsString (WatcherUsernames t) (GetIdentity c) then None
      else if HasIntersection (WatcherGroups t) (GetGroups c) then None
      else Some (Forbidden ''User is not watcher of this task''))"

definition IsTemplateOwner :: "auth_ctx \<Rightarrow> TaskTemplate option \<Rightarrow> error option" where
  "IsTemplateOwner c tt =
     (case tt of
        None \<Rightarrow> Some (Plain ''nil tasktemplate'')
      | Some tmpl \<Rightarrow>
          if ListContainsString (AllowedResolverUsernames tmpl) (GetIdentity c) then None
          else if HasIntersection (AllowedResolverGroups tmpl) (GetGroups c) then None
          else Some (Forbidden ''User not authorized on this resolution''))"

definition IsResolutionManager ::
  "auth_ctx \<Rightarrow> TaskTemplate option \<Rightarrow> Task option \<Rightarrow> Resolution option \<Rightarrow> error option" where
  "IsResolutionManager c tt t r =
     (case t of
        None \<Rightarrow> Some (Plain ''nil task'')
      | Some tk \<Rightarrow>
          if IsTemplateOwner c tt = None then None
          else if ListContainsString (ResolverUsernames tk) (GetIdentity c) then None
          else if (case r of None \<Rightarrow> False
                   | Some res \<Rightarrow> ResolverUsername res = GetIdentity c) then None
          else if HasIntersection (ResolverGroups tk) (GetGroups c) then None
          else Some (Forbidden ''User not authorized on this resolution''))"

section \<open>Creating tasks and resuming parents: pkg/taskutils\<close>

text \<open>
  The packages models/task, models/resolution and pkg/batchutils are not among the
  sources, nor is the database behind \<open>zesty.DBProvider\<close>. Everything outside the process
  (the database, the notifications sent, the clock) is a world \<open>'w\<close>; the absent functions
  are the fields of a record of operations on it. An operation that writes returns the
  world it leaves, also when it fails; a query only reads. \<open>'i\<close> is the task input, \<open>'b\<close> a
  batch.
\<close>

record ('w, 'i, 'b) models =
  task_Create ::
    "'w \<Rightarrow> TaskTemplate \<Rightarrow> string \<Rightarrow> string list \<Rightarrow> string list \<Rightarrow> string list \<Rightarrow>
     string list \<Rightarrow> string list \<Rightarrow> 'i \<Rightarrow> string gomap option \<Rightarrow> 'b option \<Rightarrow> bool \<Rightarrow>
     (error + Task) \<times> 'w"
  task_CreateComment :: "'w \<Rightarrow> Task \<Rightarrow> string \<Rightarrow> string \<Rightarrow> (error + string) \<times> 'w"
  resolution_Create ::
    "'w \<Rightarrow> Task \<Rightarrow> string \<Rightarrow> bool \<Rightarrow> int option \<Rightarrow> (error + Resolution option) \<times> 'w"
  NotifyValidationRequired :: "'w \<Rightarrow> Task \<Rightarrow> TaskTemplate \<Rightarrow> 'w"
  ParseDuration :: "string \<Rightarrow> error + int"
  Now :: "'w \<Rightarrow> int"
  RunningTasks :: "'w \<Rightarrow> int \<Rightarrow> error + int"
  task_LoadFromPublicID :: "'w \<Rightarrow> string \<Rightarrow> error + Task"
  resolution_LoadFromPublicID :: "'w \<Rightarrow> string \<Rightarrow> error + Resolution"

text \<open>The comment, when there is one, is stored and becomes the task's only comment.\<close>

definition add_comment ::
  "('w, 'i, 'b) models \<Rightarrow> 'w \<Rightarrow> Task \<Rightarrow> string \<Rightarrow> string \<Rightarrow> (error + Task) \<times> 'w" where
  "add_comment ops dbp t reqUsername comment =
     (if comment \<noteq> [] then
        (case task_CreateComment ops dbp t reqUsername comment of
           (Inl err, dbp') \<Rightarrow> (Inl err, dbp')
         | (Inr com, dbp') \<Rightarrow> (Inr (t\<lparr>Comments := [com]\<rparr>), dbp'))
      else (Inr t, dbp))"

text \<open>The time until which the resolution is delayed; a delay that does not parse is an error.\<close>

definition delay_until ::
  "('w, 'i, 'b) models \<Rightarrow> 'w \<Rightarrow> string option \<Rightarrow> error + int option" where
  "delay_until ops dbp delay =
     (case delay of
        None \<Rightarrow> Inr None
      | Some d \<Rightarrow>
          (case ParseDuration ops d of
             Inl err \<Rightarrow> Inl (NotValid ''delay'')
           | Inr delayDuration \<Rightarrow> Inr (Some (Now ops dbp + delayDuration))))"

text \<open>The second half of CreateTask, for a template that is auto-runnable.\<close>

definition create_resolution ::
  "('w, 'i, 'b) models \<Rightarrow> auth_state \<Rightarrow> auth_ctx \<Rightarrow> 'w \<Rightarrow> TaskTemplate \<Rightarrow> Task \<Rightarrow>
   string option \<Rightarrow> (error + Task) \<times> 'w" where
  "create_resolution ops ast c dbp tt t delay =
     (let admin = (IsAdmin ast c = None);
          requester = (IsRequester c t = None \<and> AllowAllResolverUsernames tt);
          resolutionManager = (IsResolutionManager c (Some tt) (Some t) None = None)
      in if \<not> requester \<and> \<not> resolutionManager \<and> \<not> admin then
           (Inr t, NotifyValidationRequired ops dbp t tt)
         else
           (case delay_until ops dbp delay of
              Inl err \<Rightarrow> (Inl err, dbp)
            | Inr delayUntil \<Rightarrow>
                (case resolution_Create ops dbp t (GetIdentity c) True delayUntil of
                   (Inl err, dbp') \<Rightarrow> (Inl err, dbp')
                 | (Inr None, dbp') \<Rightarrow> (Inr t, dbp')
                 | (Inr (Some res), dbp') \<Rightarrow>
                     (Inr (t\<lparr>Resolution := Some (ResolutionPublicID res)\<rparr>), dbp'))))"

text \<open>
  CreateTask. The template pointer is dereferenced at once, so the template is not nil.
  The result is what the function returns, a task or an error, and the world it leaves.
\<close>

definition CreateTask ::
  "('w, 'i, 'b) models \<Rightarrow> auth_state \<Rightarrow> auth_ctx \<Rightarrow> 'w \<Rightarrow> TaskTemplate \<Rightarrow> string list \<Rightarrow>
   string list \<Rightarrow> string list \<Rightarrow> string list \<Rightarrow> 'i \<Rightarrow> 'b option \<Rightarrow> string \<Rightarrow> string option \<Rightarrow>
   string gomap option \<Rightarrow> (error + Task) \<times> 'w" where
  "CreateTask ops ast c dbp tt watcherUsernames watcherGroups resolverUsernames resolverGroups
     input b comment delay tags =
     (let reqUsername = GetIdentity c;
          reqGroups = GetGroups c
      in if Blocked tt then (Inl (NotValid ''Template not available (blocked)''), dbp)
         else
           (let delayed = (delay \<noteq> None)
            in case task_Create ops dbp tt reqUsername reqGroups watcherUsernames watcherGroups
                      resolverUsernames resolverGroups input tags b delayed of
                 (Inl err, dbp1) \<Rightarrow> (Inl err, dbp1)
               | (Inr t, dbp1) \<Rightarrow>
                   (case add_comment ops dbp1 t reqUsername comment of
                      (Inl err, dbp2) \<Rightarrow> (Inl err, dbp2)
                    | (Inr t', dbp2) \<Rightarrow>
                        if \<not> AutoRunnable tt \<and> AllowAllResolverUsernames tt then
                          (Inl (Plain (''invalid tasktemplate: '' @ Name tt
                                       @ '' should be auto_runnable'')), dbp2)
                        else if \<not> AutoRunnable tt then
                          (Inr t', NotifyValidationRequired ops dbp2 t' tt)
                        else create_resolution ops ast c dbp2 tt t' delay)))"

text \<open>
  ShouldResumeParentTask returns a pair, the parent task and the error, either of which
  may be nil. \<open>parentKey\<close> is \<open>constants.SubtaskTagParentTaskID\<close>, the tag under which a
  subtask keeps the id of its parent; the constant is not among the sources.
\<close>

definition batch_gate ::
  "('w, 'i, 'b) models \<Rightarrow> 'w \<Rightarrow> Task \<Rightarrow> (Task option \<times> error option) option" where
  "batch_gate ops dbp t =
     (case BatchID t of
        None \<Rightarrow> None
      | Some batchID \<Rightarrow>
          (case RunningTasks ops dbp batchID of
             Inl err \<Rightarrow> Some (None, Some err)
           | Inr running \<Rightarrow> if running \<noteq> 0 then Some (None, None) else None))"

definition load_parent ::
  "('w, 'i, 'b) models \<Rightarrow> 'w \<Rightarrow> string \<Rightarrow> Task option \<times> error option" where
  "load_parent ops dbp parentTaskID =
     (case task_LoadFromPublicID ops dbp parentTaskID of
        Inl err \<Rightarrow> (None, Some err)
      | Inr parentTask \<Rightarrow>
          if State parentTask \<noteq> task_StateBlocked \<and> State parentTask \<noteq> task_StateRunning
             \<and> State parentTask \<noteq> task_StateWaiting then (None, None)
          else
            (case Resolution parentTask of
               None \<Rightarrow> (None, None)
             | Some rid \<Rightarrow>
                 (case resolution_LoadFromPublicID ops dbp rid of
                    Inl err \<Rightarrow> (None, Some err)
                  | Inr r \<Rightarrow>
                      if ResolutionState r = resolution_StateCrashed
                         \<or> ResolutionState r = resolution_StatePaused then (None, None)
                      else (Some parentTask, None))))"

definition ShouldResumeParentTask ::
  "('w, 'i, 'b) models \<Rightarrow> string \<Rightarrow> 'w \<Rightarrow> Task \<Rightarrow> Task option \<times> error option" where
  "ShouldResumeParentTask ops parentKey dbp t =
     (if State t \<noteq> task_StateDone \<and> State t \<noteq> task_StateWontfix
         \<and> State t \<noteq> task_StateCancelled then (None, None)
      else
        (case Tags t of
           None \<Rightarrow> (None, None)
         | Some tags \<Rightarrow>
             (case map_of tags parentKey of
                None \<Rightarrow> (None, None)
              | Some parentTaskID \<Rightarrow>
                  (case batch_gate ops dbp t of
                     Some early \<Rightarrow> early
                   | None \<Rightarrow> load_parent ops dbp parentTaskID))))"

section \<open>Metrics, statistics and routes: package api\<close>

subsection \<open>The gauge\<close>

text \<open>
  A gauge vector of the Prometheus client: its name, the names of its labels, and one
  value for each list of label values that was ever set. \<open>'v\<close> is the type of a count
  (a float64 in the source, of which only the copying matters here).
\<close>

record 'v GaugeVec =
  gaugeName :: string
  labelNames :: "string list"
  series :: "(string list \<times> 'v) list"

definition metrics :: "'v GaugeVec" where
  "metrics = \<lparr>gaugeName = ''utask_task_state'',
              labelNames = [''status'', ''template'', ''group''],
              series = []\<rparr>"

text \<open>\<open>g.WithLabelValues(lvs...).Set(v)\<close>\<close>

definition gauge_set :: "'v GaugeVec \<Rightarrow> string list \<Rightarrow> 'v \<Rightarrow> 'v GaugeVec" where
  "gauge_set g lvs v = g\<lparr>series := AList.update lvs v (series g)\<rparr>"

text \<open>The three nested loops of updateMetrics, innermost first.\<close>

fun set_states :: "string \<Rightarrow> string \<Rightarrow> 'v gomap \<Rightarrow> 'v GaugeVec \<Rightarrow> 'v GaugeVec" where
  "set_states grp template [] g = g"
| "set_states grp template ((state, count) # rest) g =
     set_states grp template rest (gauge_set g [state, template, grp] count)"

fun set_templates :: "string \<Rightarrow> 'v gomap gomap \<Rightarrow> 'v GaugeVec \<Rightarrow> 'v GaugeVec" where
  "set_templates grp [] g = g"
| "set_templates grp ((template, templateStats) # rest) g =
     set_templates grp rest (set_states grp template templateStats g)"

fun set_groups :: "'v gomap gomap gomap \<Rightarrow> 'v GaugeVec \<Rightarrow> 'v GaugeVec" where
  "set_groups [] g = g"
| "set_groups ((grp, groupStats) # rest) g = set_groups rest (set_templates grp groupStats g)"

text \<open>
  What collecting changes: the gauge, the warnings logged, and the ticker, which is not
  yet made, or ticking with a period in seconds, or stopped.
\<close>

datatype ticker = NoTicker | Ticking nat | Stopped

record 'v metrics_state =
  gauge :: "'v GaugeVec"
  warnings :: "error list"
  tick :: ticker

text \<open>
  updateMetrics. The first argument is what \<open>task.LoadStateCountResolverGroup(dbp)\<close>
  returned, the counts by resolver group, template and state, and the error; an error is
  logged and the loops run all the same.
\<close>

definition updateMetrics ::
  "'v gomap gomap gomap \<times> error option \<Rightarrow> 'v metrics_state \<Rightarrow> 'v metrics_state" where
  "updateMetrics loaded st =
     (case loaded of
        (stats, err) \<Rightarrow>
          st\<lparr>gauge := set_groups stats (gauge st),
             warnings := (case err of Some e \<Rightarrow> warnings st @ [e] | None \<Rightarrow> warnings st)\<rparr>)"

text \<open>
  collectMetrics makes a ticker of 5 seconds and updates once; a goroutine then waits
  for the ticker or for the end of the context, where it stops the ticker and ends. What
  the goroutine sees is a list of events, a tick carrying what the aggregation query
  returns at that moment. \<open>dberr\<close> is the error of \<open>zesty.NewDBProvider\<close>, if any.
\<close>

datatype 'v metrics_event =
    TickC "'v gomap gomap gomap \<times> error option"
  | CtxDone

fun metrics_loop :: "'v metrics_event list \<Rightarrow> 'v metrics_state \<Rightarrow> 'v metrics_state" where
  "metrics_loop [] st = st"
| "metrics_loop (TickC loaded # rest) st = metrics_loop rest (updateMetrics loaded st)"
| "metrics_loop (CtxDone # rest) st = st\<lparr>tick := Stopped\<rparr>"

definition collectMetrics ::
  "error option \<Rightarrow> 'v gomap gomap gomap \<times> error option \<Rightarrow> 'v metrics_event list \<Rightarrow>
   'v metrics_state \<Rightarrow> 'v metrics_state" where
  "collectMetrics dberr loaded events st =
     (case dberr of
        Some err \<Rightarrow> st\<lparr>warnings := warnings st @ [err]\<rparr>
      | None \<Rightarrow> metrics_loop events (updateMetrics loaded (st\<lparr>tick := Ticking 5\<rparr>)))"

text \<open>The state in which build calls collectMetrics.\<close>

definition metrics_start :: "'v metrics_state" where
  "metrics_start = \<lparr>gauge = metrics, warnings = [], tick = NoTicker\<rparr>"

subsection \<open>Stats\<close>

text \<open>\<open>strings.Split(s, sep)\<close> for a separator of one character.\<close>

fun Split :: "string \<Rightarrow> char \<Rightarrow> string list" where
  "Split [] sep = [[]]"
| "Split (x # xs) sep =
     (if x = sep then [] # Split xs sep
      else (case Split xs sep of [] \<Rightarrow> [[x]] | p # ps \<Rightarrow> (x # p) # ps))"

record StatsIn =
  InTags :: "string list"

record 'c StatsOut =
  TaskStates :: 'c

text \<open>The loop of Stats over the tags of the query, filling the map of tags.\<close>

fun parse_tags :: "string list \<Rightarrow> string gomap \<Rightarrow> error + string gomap" where
  "parse_tags [] tags = Inr tags"
| "parse_tags (t # rest) tags =
     (let parts = Split t (CHR ''='')
      in if length parts \<noteq> 2 then Inl (BadRequest (''invalid tag '' @ t))
         else if parts ! 0 = [] \<or> parts ! 1 = [] then Inl (BadRequest (''invalid tag '' @ t))
         else parse_tags rest (AList.update (parts ! 0) (parts ! 1) tags))"

text \<open>A tag is well formed when it splits at \<open>=\<close> into exactly two parts, neither empty.\<close>

definition tag_ok :: "string \<Rightarrow> bool" where
  "tag_ok t \<longleftrightarrow>
     (case Split t (CHR ''='') of
        [k, v] \<Rightarrow> k \<noteq> [] \<and> v \<noteq> []
      | _ \<Rightarrow> False)"

text \<open>
  Stats. \<open>dbres\<close> is what \<open>zesty.NewDBProvider\<close> returns, \<open>load\<close> is \<open>task.LoadStateCount\<close>;
  neither is among the sources.
\<close>

definition Stats ::
  "error + 'd \<Rightarrow> ('d \<Rightarrow> string gomap \<Rightarrow> error + 'c) \<Rightarrow> StatsIn \<Rightarrow> error + 'c StatsOut" where
  "Stats dbres load inp =
     (case dbres of
        Inl err \<Rightarrow> Inl err
      | Inr dbp \<Rightarrow>
          (case parse_tags (InTags inp) [] of
             Inl err \<Rightarrow> Inl err
           | Inr tags \<Rightarrow>
               (case load dbp tags of
                  Inl err \<Rightarrow> Inl err
                | Inr counts \<Rightarrow> Inr \<lparr>TaskStates = counts\<rparr>)))"

subsection \<open>Routes and their handler chains\<close>

text \<open>
  What a chain of gin handlers does to the request context: \<open>auth\<close> holds the identity and
  the groups that the authentication middleware stored, \<open>status\<close> and \<open>body\<close> are the
  response written so far, \<open>handled\<close> lists the endpoint handlers that ran.
\<close>

record gin_Context =
  auth :: auth_ctx
  aborted :: bool
  status :: "nat option"
  body :: "string option"
  handled :: "string list"

definition StatusUnauthorized :: nat where
  "StatusUnauthorized = 401"

definition StatusForbidden :: nat where
  "StatusForbidden = 403"

definition StatusMethodNotAllowed :: nat where
  "StatusMethodNotAllowed = 405"

definition StatusBadRequest :: nat where
  "StatusBadRequest = 400"

definition StatusInternalServerError :: nat where
  "StatusInternalServerError = 500"

text \<open>
  build installs \<open>jujerr.ErrHook\<close> of the tonic library as the error hook: an error that an
  endpoint handler returns is answered with the status of its kind.
\<close>

definition ErrHook :: "error \<Rightarrow> nat" where
  "ErrHook e =
     (case e of
        BadRequest msg \<Rightarrow> StatusBadRequest
      | NotValid msg \<Rightarrow> StatusBadRequest
      | Forbidden msg \<Rightarrow> StatusForbidden
      | Plain msg \<Rightarrow> StatusInternalServerError)"

text \<open>
  gin runs the handlers of a route one after the other and stops once the context is
  aborted. A handler here calls \<open>c.Next()\<close> only as its last statement, which hands over to
  the handlers after it: that is the same as returning.
\<close>

fun run_chain :: "(gin_Context \<Rightarrow> gin_Context) list \<Rightarrow> gin_Context \<Rightarrow> gin_Context" where
  "run_chain [] c = c"
| "run_chain (h # hs) c = (if aborted c then c else run_chain hs (h c))"

definition requireAdmin :: "auth_state \<Rightarrow> gin_Context \<Rightarrow> gin_Context" where
  "requireAdmin ast c =
     (if IsAdmin ast (auth c) \<noteq> None
      then c\<lparr>aborted := True, status := Some StatusUnauthorized\<rparr>
      else c)"

text \<open>\<open>FMaintenanceMode\<close> is the flag \<open>utask.FMaintenanceMode\<close>.\<close>

definition maintenanceMode :: "bool \<Rightarrow> gin_Context \<Rightarrow> gin_Context" where
  "maintenanceMode FMaintenanceMode c =
     (if FMaintenanceMode
      then c\<lparr>status := Some StatusMethodNotAllowed,
              body := Some ''Maintenance mode activated''\<rparr>
      else c)"

text \<open>
  \<open>tonic.Handler(h, code)\<close> wraps an endpoint handler of package api/handler; the package is
  not among the sources, so what the handler does to the context is a parameter. The
  wrapper is where an endpoint handler is entered.
\<close>

definition tonic_Handler ::
  "string \<Rightarrow> (gin_Context \<Rightarrow> gin_Context) \<Rightarrow> gin_Context \<Rightarrow> gin_Context" where
  "tonic_Handler name h c = h (c\<lparr>handled := handled c @ [name]\<rparr>)"

datatype middleware = RequireAdmin | MaintenanceMode

record route =
  httpMethod :: string
  routePath :: string
  guards :: "middleware list"
  handlerName :: string
  successCode :: nat

definition mk_route :: "string \<Rightarrow> string \<Rightarrow> middleware list \<Rightarrow> string \<Rightarrow> nat \<Rightarrow> route" where
  "mk_route m p gs h code =
     \<lparr>httpMethod = m, routePath = p, guards = gs, handlerName = h, successCode = code\<rparr>"

text \<open>
  The routes that build registers under the group \<open>authRoutes\<close> with an endpoint handler
  wrapped by tonic, group by group and in the order of the source: the method, the path,
  the middlewares given before the endpoint handler, the endpoint handler and the status
  of a success.
\<close>

definition templateRoutes :: "route list" where
  "templateRoutes =
     [mk_route ''GET'' ''/template'' [] ''ListTemplates'' 200,
      mk_route ''GET'' ''/template/:name'' [] ''GetTemplate'' 200]"

definition functionRoutes :: "route list" where
  "functionRoutes =
     [mk_route ''GET'' ''/function'' [] ''ListFunctions'' 200,
      mk_route ''GET'' ''/function/:name'' [] ''GetFunction'' 200]"

definition taskRoutes :: "route list" where
  "taskRoutes =
     [mk_route ''POST'' ''/batch'' [MaintenanceMode] ''CreateBatch'' 201,
      mk_route ''POST'' ''/task'' [MaintenanceMode] ''CreateTask'' 201,
      mk_route ''GET'' ''/task'' [] ''ListTasks'' 200,
      mk_route ''GET'' ''/task/:id'' [] ''GetTask'' 200,
      mk_route ''PUT'' ''/task/:id'' [MaintenanceMode] ''UpdateTask'' 200,
      mk_route ''POST'' ''/task/:id/wontfix'' [MaintenanceMode] ''WontfixTask'' 204,
      mk_route ''DELETE'' ''/task/:id'' [RequireAdmin, MaintenanceMode] ''DeleteTask'' 204]"

definition commentsRoutes :: "route list" where
  "commentsRoutes =
     [mk_route ''POST'' ''/task/:id/comment'' [MaintenanceMode] ''CreateComment'' 201,
      mk_route ''GET'' ''/task/:id/comment'' [] ''ListComments'' 200,
      mk_route ''GET'' ''/task/:id/comment/:commentid'' [] ''GetComment'' 200,
      mk_route ''PUT'' ''/task/:id/comment/:commentid'' [MaintenanceMode] ''UpdateComment'' 200,
      mk_route ''DELETE'' ''/task/:id/comment/:commentid'' [MaintenanceMode]
        ''DeleteComment'' 204]"

definition resolutionRoutes :: "route list" where
  "resolutionRoutes =
     [mk_route ''POST'' ''/resolution'' [MaintenanceMode] ''CreateResolution'' 201,
      mk_route ''GET'' ''/resolution/:id'' [] ''GetResolution'' 200,
      mk_route ''PUT'' ''/resolution/:id'' [RequireAdmin, MaintenanceMode]
        ''UpdateResolution'' 204,
      mk_route ''POST'' ''/resolution/:id/run'' [MaintenanceMode] ''RunResolution'' 204,
      mk_route ''POST'' ''/resolution/:id/pause'' [MaintenanceMode] ''PauseResolution'' 204,
      mk_route ''POST'' ''/resolution/:id/extend'' [MaintenanceMode] ''ExtendResolution'' 204,
      mk_route ''POST'' ''/resolution/:id/cancel'' [MaintenanceMode] ''CancelResolution'' 204,
      mk_route ''GET'' ''/resolution/:id/step/:stepName'' [] ''GetResolutionStep'' 200,
      mk_route ''PUT'' ''/resolution/:id/step/:stepName'' [RequireAdmin, MaintenanceMode]
        ''UpdateResolutionStep'' 204,
      mk_route ''PUT'' ''/resolution/:id/step/:stepName/state'' [MaintenanceMode]
        ''UpdateResolutionStepState'' 204]"

definition miscRoutes :: "route list" where
  "miscRoutes =
     [mk_route ''GET'' ''/meta'' [] ''rootHandler'' 200,
      mk_route ''POST'' ''/key-rotate'' [RequireAdmin] ''keyRotate'' 200]"

definition authRoutes :: "route list" where
  "authRoutes =
     templateRoutes @ functionRoutes @ taskRoutes @ commentsRoutes @ resolutionRoutes
     @ miscRoutes"

definition guard :: "auth_state \<Rightarrow> bool \<Rightarrow> middleware \<Rightarrow> gin_Context \<Rightarrow> gin_Context" where
  "guard ast FMaintenanceMode mw =
     (case mw of
        RequireAdmin \<Rightarrow> requireAdmin ast
      | MaintenanceMode \<Rightarrow> maintenanceMode FMaintenanceMode)"

text \<open>The middleware that NewServer gives a server: it only calls \<open>c.Next()\<close>.\<close>

definition default_authMiddleware :: "gin_Context \<Rightarrow> gin_Context" where
  "default_authMiddleware c = c"

text \<open>
  A request to a route of the group. The chain is the authentication middleware of the
  group (the server's \<open>authMiddleware\<close>, which stores the identity of the caller in the
  context or aborts), then the middlewares of the route, then the endpoint handler;
  \<open>handlers\<close> gives the endpoint handler of each name. The middlewares that the router
  itself uses come before and are taken to have run. The result is \<open>None\<close> for a method
  and a path that are not in the table.
\<close>

definition serve ::
  "auth_state \<Rightarrow> bool \<Rightarrow> (gin_Context \<Rightarrow> gin_Context) \<Rightarrow>
   (string \<Rightarrow> gin_Context \<Rightarrow> gin_Context) \<Rightarrow> string \<Rightarrow> string \<Rightarrow> gin_Context \<Rightarrow>
   gin_Context option" where
  "serve ast FMaintenanceMode authMiddleware handlers m p c =
     (case find (\<lambda>r. httpMethod r = m \<and> routePath r = p) authRoutes of
        None \<Rightarrow> None
      | Some r \<Rightarrow>
          Some (run_chain
                  (authMiddleware # map (guard ast FMaintenanceMode) (guards r)
                   @ [tonic_Handler (handlerName r) (handlers (handlerName r))]) c))"

section \<open>Sample values\<close>

text \<open>Small configurations, requests and stores on which the functions above are run.\<close>

definition slack_backend ::
  "string gomap option \<Rightarrow> TemplateNotificationStrategy list gomap \<Rightarrow> NotifyBackend" where
  "slack_backend d t =
     \<lparr>Type = slack_Type, DefaultNotificationStrategy = d,
      TemplateNotificationStrategies = t, Config = ''hook''\<rparr>"

definition sample_cfg :: "NotifyBackend \<Rightarrow> unit Cfg" where
  "sample_cfg b =
     \<lparr>NotifyConfig = [(''chat'', b)], NotifyActions = (),
      AdminUsernames = [''root''], AdminGroups = []\<rparr>"

definition sample_mk :: "string \<Rightarrow> NotifyBackend \<Rightarrow> init_error + string" where
  "sample_mk name ncfg = Inr (Config ncfg)"

definition no_senders :: "(string, unit) notify_state" where
  "no_senders = \<lparr>senders = [], actions = ()\<rparr>"

definition quiet_backend :: NotifyBackend where
  "quiet_backend =
     slack_backend (Some [(TaskStateUpdateKey, NotificationStrategyFailureOnly)])
       [(TaskStepUpdateKey,
         [\<lparr>Templates = [''hello''], NotificationStrategy = NotificationStrategySilent\<rparr>])]"

definition alice :: auth_ctx where
  "alice = \<lparr>identity = Some ''alice'', groups = Some [''dev'']\<rparr>"

definition sample_admins :: auth_state where
  "sample_admins = \<lparr>adminUsers = [''root''], adminGroups = [''ops'']\<rparr>"

definition sample_template :: TaskTemplate where
  "sample_template =
     \<lparr>Name = ''hello'', Blocked = False, AutoRunnable = True,
      AllowAllResolverUsernames = False, AllowedResolverUsernames = [''alice''],
      AllowedResolverGroups = []\<rparr>"

definition blocked_template :: TaskTemplate where
  "blocked_template = sample_template\<lparr>Blocked := True\<rparr>"

definition sample_request :: "auth_ctx \<Rightarrow> gin_Context" where
  "sample_request c =
     \<lparr>auth = c, aborted = False, status = None, body = None, handled = []\<rparr>"

definition sample_handlers :: "string \<Rightarrow> gin_Context \<Rightarrow> gin_Context" where
  "sample_handlers name c = c\<lparr>status := Some 204\<rparr>"

text \<open>
  A store in memory for the operations of the absent packages: created tasks, resolutions
  and comments are appended, a task counts as running in its batch until it is done,
  cancelled or abandoned.
\<close>

record mem_db =
  db_tasks :: "Task list"
  db_resolutions :: "Resolution list"
  db_comments :: "string list"
  db_notified :: "string list"
  db_clock :: int

definition mem_task_Create ::
  "mem_db \<Rightarrow> TaskTemplate \<Rightarrow> string \<Rightarrow> string list \<Rightarrow> string list \<Rightarrow> string list \<Rightarrow>
   string list \<Rightarrow> string list \<Rightarrow> unit \<Rightarrow> string gomap option \<Rightarrow> unit option \<Rightarrow> bool \<Rightarrow>
   (error + Task) \<times> mem_db" where
  "mem_task_Create w tt req reqGroups wu wg ru rg inp tags b delayed =
     (let t = \<lparr>PublicID = ''task-new'', RequesterUsername = req, WatcherUsernames = wu,
               WatcherGroups = wg, ResolverUsernames = ru, ResolverGroups = rg,
               State = task_StateTODO, Tags = tags, BatchID = None, Resolution = None,
               Comments = []\<rparr>
      in (Inr t, w\<lparr>db_tasks := db_tasks w @ [t]\<rparr>))"

definition mem_resolution_Create ::
  "mem_db \<Rightarrow> Task \<Rightarrow> string \<Rightarrow> bool \<Rightarrow> int option \<Rightarrow> (error + Resolution option) \<times> mem_db" where
  "mem_resolution_Create w t resolver auto delayUntil =
     (let r = \<lparr>ResolutionPublicID = ''res-new'', ResolverUsername = resolver,
               ResolutionState = resolution_StateTODO\<rparr>
      in (Inr (Some r), w\<lparr>db_resolutions := db_resolutions w @ [r]\<rparr>))"

definition mem_RunningTasks :: "mem_db \<Rightarrow> int \<Rightarrow> error + int" where
  "mem_RunningTasks w batchID =
     Inr (int (length (filter
       (\<lambda>t. BatchID t = Some batchID \<and> State t \<noteq> task_StateDone
            \<and> State t \<noteq> task_StateCancelled \<and> State t \<noteq> task_StateWontfix)
       (db_tasks w))))"

definition mem_task_Load :: "mem_db \<Rightarrow> string \<Rightarrow> error + Task" where
  "mem_task_Load w pid =
     (case find (\<lambda>t. PublicID t = pid) (db_tasks w) of
        None \<Rightarrow> Inl (Plain ''no such task'')
      | Some t \<Rightarrow> Inr t)"

definition mem_resolution_Load :: "mem_db \<Rightarrow> string \<Rightarrow> error + Resolution" where
  "mem_resolution_Load w rid =
     (case find (\<lambda>r. ResolutionPublicID r = rid) (db_resolutions w) of
        None \<Rightarrow> Inl (Plain ''no such resolution'')
      | Some r \<Rightarrow> Inr r)"

definition mem_CreateComment ::
  "mem_db \<Rightarrow> Task \<Rightarrow> string \<Rightarrow> string \<Rightarrow> (error + string) \<times> mem_db" where
  "mem_CreateComment w t user comment = (Inr comment, w\<lparr>db_comments := db_comments w @ [comment]\<rparr>)"

definition mem_Notify :: "mem_db \<Rightarrow> Task \<Rightarrow> TaskTemplate \<Rightarrow> mem_db" where
  "mem_Notify w t tt = w\<lparr>db_notified := db_notified w @ [PublicID t]\<rparr>"

definition mem_ParseDuration :: "string \<Rightarrow> error + int" where
  "mem_ParseDuration d = (if d = ''1s'' then Inr 1000000000 else Inl (Plain ''invalid duration''))"

definition mem_models :: "(mem_db, unit, unit) models" where
  "mem_models =
     \<lparr>task_Create = mem_task_Create,
      task_CreateComment = mem_CreateComment,
      resolution_Create = mem_resolution_Create,
      NotifyValidationRequired = mem_Notify,
      ParseDuration = mem_ParseDuration,
      Now = db_clock,
      RunningTasks = mem_RunningTasks,
      task_LoadFromPublicID = mem_task_Load,
      resolution_LoadFromPublicID = mem_resolution_Load\<rparr>"

definition empty_db :: mem_db where
  "empty_db = \<lparr>db_tasks = [], db_resolutions = [], db_comments = [], db_notified = [],
               db_clock = 0\<rparr>"

definition parent_task :: Task where
  "parent_task =
     \<lparr>PublicID = ''parent'', RequesterUsername = ''alice'', WatcherUsernames = [],
      WatcherGroups = [], ResolverUsernames = [], ResolverGroups = [],
      State = task_StateWaiting, Tags = None, BatchID = None, Resolution = Some ''res-parent'',
      Comments = []\<rparr>"

definition child_task :: Task where
  "child_task =
     \<lparr>PublicID = ''child'', RequesterUsername = ''alice'', WatcherUsernames = [],
      WatcherGroups = [], ResolverUsernames = [], ResolverGroups = [],
      State = task_StateDone, Tags = Some [(''_parent'', ''parent'')], BatchID = Some 7,
      Resolution = None, Comments = []\<rparr>"

definition family_db :: mem_db where
  "family_db =
     \<lparr>db_tasks = [parent_task, child_task],
      db_resolutions = [\<lparr>ResolutionPublicID = ''res-parent'', ResolverUsername = ''alice'',
                         ResolutionState = resolution_StateWaiting\<rparr>],
      db_comments = [], db_notified = [], db_clock = 0\<rparr>"

definition sample_load :: "unit \<Rightarrow> string gomap \<Rightarrow> error + string gomap" where
  "sample_load dbp tags = Inr tags"

definition failing_load :: "unit \<Rightarrow> string gomap \<Rightarrow> error + string gomap" where
  "failing_load dbp tags = Inl (Plain ''query failed'')"

definition sample_registry :: "string notificationBackend gomap" where
  "sample_registry =
     [(''chat'', \<lparr>sender = ''hook'', defaultNotificationStrategy = None,
                 templateNotificationStrategies = []\<rparr>),
      (''pager'', \<lparr>sender = ''page'', defaultNotificationStrategy = None,
                  templateNotificationStrategies = []\<rparr>)]"

definition deliver_all :: "string \<Rightarrow> string notificationBackend \<Rightarrow> bool" where
  "deliver_all m b = True"

definition chat_only :: NotifyActionsParameters where
  "chat_only = \<lparr>Disabled = False, NotifyBackends = [''chat'', ''ghost'']\<rparr>"

definition sample_stats :: "nat gomap gomap gomap" where
  "sample_stats = [(''dev'', [(''hello'', [(''DONE'', 3), (''TODO'', 1)])])]"

section \<open>Properties of the notification configuration\<close>

lemma check_default_actions_None:
  "check_default_actions m = None \<longleftrightarrow> (\<forall>(a, s) \<in> set m. validateActionName a)"
  by (induction m) (auto split: if_splits)

lemma check_strats_None:
  "check_strats a ss = None \<longleftrightarrow>
     (\<forall>s \<in> set ss. validateStrategyForAction a (NotificationStrategy s) = None)"
  by (induction ss) (auto split: option.splits strategy_error.splits)

lemma check_template_strategies_None:
  "check_template_strategies t = None \<longleftrightarrow>
     (\<forall>(a, ss) \<in> set t. validateActionName a \<and> check_strats a ss = None)"
  by (induction t) (auto split: option.splits if_splits)

lemma strategy_of_update:
  "map_of m a = None \<Longrightarrow>
   strategy_of (AList.update a NotificationStrategyAlways m) b = strategy_of m b"
  by (simp add: strategy_of_def update_conv')

lemma strategy_of_fill:
  "strategy_of (case map_of m a of Some s \<Rightarrow> m
      | None \<Rightarrow> AList.update a NotificationStrategyAlways m) b = strategy_of m b"
  by (cases "map_of m a") (simp_all add: strategy_of_update)

lemma normalize_actions_step:
  "snd (normalize_actions (a # as) ncfg) = None \<longleftrightarrow>
     validateStrategyForAction a (strategy_of (default_map ncfg) a) = None \<and>
     check_template_strategies (TemplateNotificationStrategies ncfg) = None \<and>
     snd (normalize_actions as (ncfg\<lparr>DefaultNotificationStrategy :=
        Some (case map_of (default_map ncfg) a of Some s \<Rightarrow> default_map ncfg
              | None \<Rightarrow> AList.update a NotificationStrategyAlways (default_map ncfg))\<rparr>)) = None"
  by (auto simp: Let_def default_map_def strategy_of_def
      split: option.splits strategy_error.splits)

lemma normalize_actions_ok_iff:
  "snd (normalize_actions as ncfg) = None \<longleftrightarrow>
     (\<forall>a \<in> set as. validateStrategyForAction a (strategy_of (default_map ncfg) a) = None) \<and>
     (as \<noteq> [] \<longrightarrow> check_template_strategies (TemplateNotificationStrategies ncfg) = None)"
proof (induction as arbitrary: ncfg)
  case Nil
  then show ?case by simp
next
  case (Cons a as)
  let ?m = "default_map ncfg"
  let ?m' = "case map_of ?m a of Some s \<Rightarrow> ?m
              | None \<Rightarrow> AList.update a NotificationStrategyAlways ?m"
  let ?n = "ncfg\<lparr>DefaultNotificationStrategy := Some ?m'\<rparr>"
  have dm: "default_map ?n = ?m'" by (simp add: default_map_def)
  have so: "\<And>b. strategy_of (default_map ?n) b = strategy_of ?m b"
    unfolding dm by (rule strategy_of_fill)
  have tn: "TemplateNotificationStrategies ?n = TemplateNotificationStrategies ncfg" by simp
  show ?case
    unfolding normalize_actions_step Cons.IH [of ?n] so tn by auto
qed

lemma validate_ok_iff:
  "snd (validateAndNormalizeNotificationStrategy ncfg) = None \<longleftrightarrow>
     (\<forall>(a, s) \<in> set (default_map ncfg). validateActionName a) \<and>
     (\<forall>a \<in> {TaskValidationKey, TaskStateUpdateKey, TaskStepUpdateKey}.
        validateStrategyForAction a (strategy_of (default_map ncfg) a) = None) \<and>
     (\<forall>(a, ss) \<in> set (TemplateNotificationStrategies ncfg). validateActionName a \<and>
        (\<forall>s \<in> set ss. validateStrategyForAction a (NotificationStrategy s) = None))"
proof (cases "check_default_actions (default_map ncfg)")
  case None
  then have "snd (validateAndNormalizeNotificationStrategy ncfg) =
      snd (normalize_actions [TaskValidationKey, TaskStateUpdateKey, TaskStepUpdateKey] ncfg)"
    by (simp add: validateAndNormalizeNotificationStrategy_def default_map_def)
  moreover have "(\<forall>(a, s) \<in> set (default_map ncfg). validateActionName a)"
    using None by (simp add: check_default_actions_None)
  ultimately show ?thesis
    by (simp add: normalize_actions_ok_iff check_template_strategies_None check_strats_None
        del: normalize_actions.simps)
next
  case (Some e)
  then have "snd (validateAndNormalizeNotificationStrategy ncfg) = Some e"
    by (simp add: validateAndNormalizeNotificationStrategy_def default_map_def)
  moreover have "\<not> (\<forall>(a, s) \<in> set (default_map ncfg). validateActionName a)"
    using Some check_default_actions_None [of "default_map ncfg"] by simp
  ultimately show ?thesis by simp
qed


lemma normalize_actions_map:
  "normalize_actions as ncfg = (ncfg', None) \<Longrightarrow>
   map_of (default_map ncfg') k =
     (if k \<in> set as then Some (strategy_of (default_map ncfg) k)
      else map_of (default_map ncfg) k)"
proof (induction as arbitrary: ncfg)
  case Nil
  then show ?case by simp
next
  case (Cons a as)
  let ?m = "default_map ncfg"
  let ?m' = "case map_of ?m a of Some s \<Rightarrow> ?m
              | None \<Rightarrow> AList.update a NotificationStrategyAlways ?m"
  let ?n = "ncfg\<lparr>DefaultNotificationStrategy := Some ?m'\<rparr>"
  have dm: "default_map ?n = ?m'" by (simp add: default_map_def)
  have so: "\<And>b. strategy_of ?m' b = strategy_of ?m b" by (rule strategy_of_fill)
  have rec: "normalize_actions as ?n = (ncfg', None)"
    using Cons.prems
    by (auto simp: Let_def default_map_def split: option.splits strategy_error.splits)
  have m'a: "map_of ?m' a = Some (strategy_of ?m a)"
    by (cases "map_of ?m a") (simp_all add: strategy_of_def update_conv')
  have m'k: "k \<noteq> a \<Longrightarrow> map_of ?m' k = map_of ?m k"
    by (cases "map_of ?m a") (simp_all add: update_conv')
  show ?case
    using Cons.IH [OF rec] m'a m'k unfolding dm so by auto
qed


lemma validate_result_map:
  assumes "validateAndNormalizeNotificationStrategy ncfg = (ncfg', None)"
    and "action \<in> {TaskValidationKey, TaskStateUpdateKey, TaskStepUpdateKey}"
  shows "\<exists>m'. DefaultNotificationStrategy ncfg' = Some m' \<and>
           map_of m' action = Some (strategy_of (default_map ncfg) action)"
proof -
  have "check_default_actions (default_map ncfg) = None"
    using assms(1)
    by (cases "check_default_actions (default_map ncfg)")
       (simp_all add: validateAndNormalizeNotificationStrategy_def default_map_def)
  then have "normalize_actions [TaskValidationKey, TaskStateUpdateKey, TaskStepUpdateKey] ncfg
      = (ncfg', None)"
    using assms(1)
    by (simp add: validateAndNormalizeNotificationStrategy_def default_map_def
        del: normalize_actions.simps)
  from normalize_actions_map [OF this, of action] assms(2)
  have m: "map_of (default_map ncfg') action = Some (strategy_of (default_map ncfg) action)"
    by auto
  then show ?thesis
    by (cases "DefaultNotificationStrategy ncfg'") (simp_all add: default_map_def)
qed

lemma init_backends_ok:
  "fst (init_backends mk cfgs reg) = None \<Longrightarrow> (name, ncfg) \<in> set cfgs \<Longrightarrow>
   snd (validateAndNormalizeNotificationStrategy ncfg) = None"
proof (induction cfgs arbitrary: reg)
  case Nil
  then show ?case by simp
next
  case (Cons c cfgs)
  obtain n0 c0 where c: "c = (n0, c0)" by (cases c)
  obtain new e where v: "validateAndNormalizeNotificationStrategy c0 = (new, e)"
    by (cases "validateAndNormalizeNotificationStrategy c0")
  from Cons.prems(1) have e: "e = None"
    unfolding c using v by (cases e) simp_all
  show ?case
  proof (cases "(name, ncfg) = (n0, c0)")
    case True
    then show ?thesis using v e by simp
  next
    case False
    then have mem: "(name, ncfg) \<in> set cfgs" using Cons.prems(2) c by auto
    from Cons.prems(1) obtain reg' where "fst (init_backends mk cfgs reg') = None"
      unfolding c using v e
      by (auto simp: Let_def split: if_splits sum.splits)
    from Cons.IH [OF this mem] show ?thesis .
  qed
qed

lemma notify_Init_ok:
  "fst (notify_Init mk (Inr cfg) st) = None \<Longrightarrow> (name, ncfg) \<in> set (NotifyConfig cfg) \<Longrightarrow>
   snd (validateAndNormalizeNotificationStrategy ncfg) = None"
proof -
  assume a: "fst (notify_Init mk (Inr cfg) st) = None"
    and m: "(name, ncfg) \<in> set (NotifyConfig cfg)"
  have "fst (init_backends mk (NotifyConfig cfg) (senders st)) = None"
    using a
    by (cases "init_backends mk (NotifyConfig cfg) (senders st)")
       (auto simp: notify_Init_def split: option.splits)
  from init_backends_ok [OF this m] show ?thesis .
qed

lemma validateStrategyForAction_None:
  "validateStrategyForAction a s = None \<longleftrightarrow>
     s = NotificationStrategyAlways \<or> s = NotificationStrategySilent \<or>
     (a \<noteq> TaskValidationKey \<and>
      (s = NotificationStrategyFailureOnly \<or> s = NotificationStrategyFailureOrDone))"
  by (auto simp: validateStrategyForAction_def)

lemmas notify_consts =
  TaskStateUpdateKey_def TaskStepUpdateKey_def TaskValidationKey_def
  NotificationStrategyAlways_def NotificationStrategySilent_def
  NotificationStrategyFailureOnly_def NotificationStrategyFailureOrDone_def

lemma validate_ok_default_key:
  "snd (validateAndNormalizeNotificationStrategy ncfg) = None \<Longrightarrow>
   (a, s) \<in> set (default_map ncfg) \<Longrightarrow> validateActionName a"
  unfolding validate_ok_iff by auto

lemma validate_ok_default_strategy:
  "snd (validateAndNormalizeNotificationStrategy ncfg) = None \<Longrightarrow> validateActionName a \<Longrightarrow>
   validateStrategyForAction a (strategy_of (default_map ncfg) a) = None"
  unfolding validate_ok_iff validateActionName_def by auto

lemma validate_ok_template:
  "snd (validateAndNormalizeNotificationStrategy ncfg) = None \<Longrightarrow>
   (a, ss) \<in> set (TemplateNotificationStrategies ncfg) \<Longrightarrow> strat \<in> set ss \<Longrightarrow>
   validateActionName a \<and> validateStrategyForAction a (NotificationStrategy strat) = None"
  unfolding validate_ok_iff by auto

lemma strategy_known:
  "validateStrategyForAction a s = None \<Longrightarrow>
   s \<in> {NotificationStrategyAlways, NotificationStrategySilent,
         NotificationStrategyFailureOnly, NotificationStrategyFailureOrDone}"
  by (auto simp: validateStrategyForAction_None)

lemma action_known:
  "validateActionName a \<Longrightarrow> a \<in> {TaskValidationKey, TaskStateUpdateKey, TaskStepUpdateKey}"
  by (auto simp: validateActionName_def)

lemma validation_key_valid: "validateActionName TaskValidationKey"
  by (simp add: validateActionName_def)

text \<open>
  Claim C1. Init returns the error of loading the configuration when that fails, and it
  returns an error for every configuration in which a backend gives the action \<open>task_validation\<close> the strategy \<open>failure_only\<close> or \<open>failure_or_done\<close>, be it in
  its default strategies or in a per-template entry for that action; the validation of
  that backend is what fails. For the actions \<open>task_state_update\<close> and \<open>task_step_update\<close>
  the same two strategies pass the check of a strategy against an action, and a backend
  that gives them to these two actions, by default and for templates, is accepted.
\<close>

theorem task_validation_rejects_failure_strategies:
  assumes "(name, ncfg) \<in> set (NotifyConfig cfg)"
    and "s = NotificationStrategyFailureOnly \<or> s = NotificationStrategyFailureOrDone"
    and "map_of (default_map ncfg) TaskValidationKey = Some s \<or>
         (\<exists>strats strat. (TaskValidationKey, strats) \<in> set (TemplateNotificationStrategies ncfg)
            \<and> strat \<in> set strats \<and> NotificationStrategy strat = s)"
  shows "fst (notify_Init mk (Inr cfg) st) \<noteq> None
       \<and> fst (notify_Init mk (Inl e) st) = Some e
       \<and> snd (validateAndNormalizeNotificationStrategy ncfg) \<noteq> None
       \<and> validateStrategyForAction TaskStateUpdateKey s = None
       \<and> validateStrategyForAction TaskStepUpdateKey s = None
       \<and> snd (validateAndNormalizeNotificationStrategy
                 (other\<lparr>DefaultNotificationStrategy :=
                          Some [(TaskStateUpdateKey, s), (TaskStepUpdateKey, s)],
                        TemplateNotificationStrategies :=
                          [(TaskStateUpdateKey,
                            [\<lparr>Templates = ts, NotificationStrategy = s\<rparr>]),
                           (TaskStepUpdateKey,
                            [\<lparr>Templates = ts, NotificationStrategy = s\<rparr>])]\<rparr>)) = None"
proof -
  have bad: "validateStrategyForAction TaskValidationKey s \<noteq> None"
    using assms(2) by (auto simp: validateStrategyForAction_None notify_consts)
  have rej: "snd (validateAndNormalizeNotificationStrategy ncfg) \<noteq> None"
  proof
    assume ok: "snd (validateAndNormalizeNotificationStrategy ncfg) = None"
    from assms(3) show False
    proof
      assume "map_of (default_map ncfg) TaskValidationKey = Some s"
      then have "strategy_of (default_map ncfg) TaskValidationKey = s"
        by (simp add: strategy_of_def)
      with validate_ok_default_strategy [OF ok validation_key_valid] bad show False by simp
    next
      assume "\<exists>strats strat. (TaskValidationKey, strats) \<in> set (TemplateNotificationStrategies ncfg)
            \<and> strat \<in> set strats \<and> NotificationStrategy strat = s"
      then obtain strats strat
        where m1: "(TaskValidationKey, strats) \<in> set (TemplateNotificationStrategies ncfg)"
          and m2: "strat \<in> set strats" and m3: "NotificationStrategy strat = s"
        by blast
      from validate_ok_template [OF ok m1 m2] m3 bad show False by simp
    qed
  qed
  have "fst (notify_Init mk (Inr cfg) st) \<noteq> None"
  proof
    assume "fst (notify_Init mk (Inr cfg) st) = None"
    from notify_Init_ok [OF this assms(1)] rej show False by simp
  qed
  moreover have acc: "validateStrategyForAction TaskStateUpdateKey s = None"
    "validateStrategyForAction TaskStepUpdateKey s = None"
    using assms(2) by (auto simp: validateStrategyForAction_None notify_consts)
  moreover have always: "\<And>a. validateStrategyForAction a NotificationStrategyAlways = None"
    by (simp add: validateStrategyForAction_None)
  have "snd (validateAndNormalizeNotificationStrategy
                 (other\<lparr>DefaultNotificationStrategy :=
                          Some [(TaskStateUpdateKey, s), (TaskStepUpdateKey, s)],
                        TemplateNotificationStrategies :=
                          [(TaskStateUpdateKey,
                            [\<lparr>Templates = ts, NotificationStrategy = s\<rparr>]),
                           (TaskStepUpdateKey,
                            [\<lparr>Templates = ts, NotificationStrategy = s\<rparr>])]\<rparr>)) = None"
    unfolding validate_ok_iff
    using acc always
    by (simp add: default_map_def strategy_of_def validateActionName_def notify_consts)
  moreover have "fst (notify_Init mk (Inl e) st) = Some e"
    by (simp add: notify_Init_def)
  ultimately show ?thesis using rej by simp
qed

theorem task_validation_rejects_failure_strategies_witness:
  "(''chat'', slack_backend (Some [(TaskValidationKey, NotificationStrategyFailureOnly)]) [])
     \<in> set (NotifyConfig (sample_cfg
          (slack_backend (Some [(TaskValidationKey, NotificationStrategyFailureOnly)]) [])))
   \<and> map_of (default_map (slack_backend
          (Some [(TaskValidationKey, NotificationStrategyFailureOnly)]) [])) TaskValidationKey
       = Some NotificationStrategyFailureOnly
   \<and> fst (notify_Init sample_mk (Inr (sample_cfg
          (slack_backend (Some [(TaskValidationKey, NotificationStrategyFailureOnly)]) [])))
        no_senders) \<noteq> None
   \<and> validateStrategyForAction TaskStateUpdateKey NotificationStrategyFailureOnly = None
   \<and> validateStrategyForAction TaskStepUpdateKey NotificationStrategyFailureOnly = None"
proof -
  let ?b = "slack_backend (Some [(TaskValidationKey, NotificationStrategyFailureOnly)]) []"
  have h1: "(''chat'', ?b) \<in> set (NotifyConfig (sample_cfg ?b))"
    by (simp add: sample_cfg_def)
  have h3: "map_of (default_map ?b) TaskValidationKey = Some NotificationStrategyFailureOnly"
    by (simp add: default_map_def slack_backend_def)
  from task_validation_rejects_failure_strategies
         [OF h1 disjI1 [OF refl] disjI1 [OF h3], where mk = sample_mk and st = no_senders
            and other = quiet_backend and ts = "[]"]
  show ?thesis using h1 h3 by simp
qed

text \<open>
  Claim C6. When Init succeeds, every backend of the configuration names only the three
  actions and only the four strategies, in its default map and in its per-template map:
  any other action name or strategy value makes Init return an error. The keys of the
  default map are distinct, as the keys of a Go map are.
\<close>

theorem init_accepts_only_known_actions_and_strategies:
  assumes "fst (notify_Init mk (Inr cfg) st) = None"
    and "(name, ncfg) \<in> set (NotifyConfig cfg)"
    and "distinct (map fst (default_map ncfg))"
  shows "(\<forall>(action, strategy) \<in> set (default_map ncfg).
            action \<in> {TaskValidationKey, TaskStateUpdateKey, TaskStepUpdateKey} \<and>
            strategy \<in> {NotificationStrategyAlways, NotificationStrategySilent,
                         NotificationStrategyFailureOnly, NotificationStrategyFailureOrDone})
       \<and> (\<forall>(action, strats) \<in> set (TemplateNotificationStrategies ncfg).
            action \<in> {TaskValidationKey, TaskStateUpdateKey, TaskStepUpdateKey} \<and>
            (\<forall>strat \<in> set strats. NotificationStrategy strat \<in>
               {NotificationStrategyAlways, NotificationStrategySilent,
                NotificationStrategyFailureOnly, NotificationStrategyFailureOrDone}))"
proof (intro conjI ballI)
  have ok: "snd (validateAndNormalizeNotificationStrategy ncfg) = None"
    using notify_Init_ok [OF assms(1,2)] .
  {
    fix x assume x: "x \<in> set (default_map ncfg)"
    obtain action strategy where xe: "x = (action, strategy)" by (cases x)
    have a: "validateActionName action"
      using validate_ok_default_key [OF ok] x xe by blast
    have "map_of (default_map ncfg) action = Some strategy"
      using x xe assms(3) by simp
    then have "strategy_of (default_map ncfg) action = strategy"
      by (simp add: strategy_of_def)
    with validate_ok_default_strategy [OF ok a]
    have "validateStrategyForAction action strategy = None" by simp
    from strategy_known [OF this] action_known [OF a] xe
    show "case x of (action, strategy) \<Rightarrow>
            action \<in> {TaskValidationKey, TaskStateUpdateKey, TaskStepUpdateKey} \<and>
            strategy \<in> {NotificationStrategyAlways, NotificationStrategySilent,
                         NotificationStrategyFailureOnly, NotificationStrategyFailureOrDone}"
      by simp
  }
  {
    fix x assume x: "x \<in> set (TemplateNotificationStrategies ncfg)"
    obtain action strats where xe: "x = (action, strats)" by (cases x)
    have a: "validateActionName action"
    proof (cases strats)
      case Nil
      from ok have "check_template_strategies (TemplateNotificationStrategies ncfg) = None"
        unfolding validate_ok_iff check_template_strategies_None check_strats_None by simp
      then show ?thesis
        unfolding check_template_strategies_None using x xe by blast
    next
      case (Cons st sts)
      then show ?thesis using validate_ok_template [OF ok, of action strats st] x xe by simp
    qed
    have "\<forall>strat \<in> set strats. NotificationStrategy strat \<in>
               {NotificationStrategyAlways, NotificationStrategySilent,
                NotificationStrategyFailureOnly, NotificationStrategyFailureOrDone}"
    proof
      fix strat assume "strat \<in> set strats"
      from validate_ok_template [OF ok _ this, of action] x xe
      have "validateStrategyForAction action (NotificationStrategy strat) = None" by simp
      from strategy_known [OF this]
      show "NotificationStrategy strat \<in>
               {NotificationStrategyAlways, NotificationStrategySilent,
                NotificationStrategyFailureOnly, NotificationStrategyFailureOrDone}" .
    qed
    with action_known [OF a] xe
    show "case x of (action, strats) \<Rightarrow>
            action \<in> {TaskValidationKey, TaskStateUpdateKey, TaskStepUpdateKey} \<and>
            (\<forall>strat \<in> set strats. NotificationStrategy strat \<in>
               {NotificationStrategyAlways, NotificationStrategySilent,
                NotificationStrategyFailureOnly, NotificationStrategyFailureOrDone})"
      by simp
  }
qed

theorem init_accepts_only_known_actions_and_strategies_witness:
  "fst (notify_Init sample_mk (Inr (sample_cfg quiet_backend)) no_senders) = None
   \<and> (''chat'', quiet_backend) \<in> set (NotifyConfig (sample_cfg quiet_backend))
   \<and> distinct (map fst (default_map quiet_backend))
   \<and> default_map quiet_backend = [(TaskStateUpdateKey, NotificationStrategyFailureOnly)]
   \<and> TaskStateUpdateKey \<in> {TaskValidationKey, TaskStateUpdateKey, TaskStepUpdateKey}
   \<and> NotificationStrategyFailureOnly \<in>
         {NotificationStrategyAlways, NotificationStrategySilent,
          NotificationStrategyFailureOnly, NotificationStrategyFailureOrDone}"
proof -
  have h1: "fst (notify_Init sample_mk (Inr (sample_cfg quiet_backend)) no_senders) = None"
    by (simp add: quiet_backend_def validateAndNormalizeNotificationStrategy_def
        slack_backend_def validateActionName_def validateStrategyForAction_def notify_consts
        Let_def notify_Init_def sample_cfg_def sample_mk_def no_senders_def RegisterSender_def
        slack_Type_def opsgenie_Type_def webhook_Type_def)
  have h2: "(''chat'', quiet_backend) \<in> set (NotifyConfig (sample_cfg quiet_backend))"
    by (simp add: sample_cfg_def)
  have h3: "distinct (map fst (default_map quiet_backend))"
    by (simp add: quiet_backend_def slack_backend_def default_map_def)
  have h4: "default_map quiet_backend =
      [(TaskStateUpdateKey, NotificationStrategyFailureOnly)]"
    by (simp add: quiet_backend_def slack_backend_def default_map_def)
  from init_accepts_only_known_actions_and_strategies [OF h1 h2 h3] h1 h2 h3 h4
  show ?thesis by simp
qed

text \<open>
  Claim C8. When \<open>validateAndNormalizeNotificationStrategy\<close> accepts a configuration, the
  default map of the configuration it returns is not nil and has an entry for each of the
  three actions: the strategy the input map gave the action, and \<open>always\<close> where the input
  map had none or was nil.
\<close>

theorem normalized_default_map_is_complete:
  assumes "validateAndNormalizeNotificationStrategy ncfg = (ncfg', None)"
    and "action \<in> {TaskValidationKey, TaskStateUpdateKey, TaskStepUpdateKey}"
  shows "\<exists>m'. DefaultNotificationStrategy ncfg' = Some m' \<and>
           map_of m' action =
             Some (case DefaultNotificationStrategy ncfg of
                     None \<Rightarrow> NotificationStrategyAlways
                   | Some m \<Rightarrow>
                       (case map_of m action of
                          None \<Rightarrow> NotificationStrategyAlways
                        | Some strategy \<Rightarrow> strategy))"
proof -
  have "strategy_of (default_map ncfg) action =
      (case DefaultNotificationStrategy ncfg of
         None \<Rightarrow> NotificationStrategyAlways
       | Some m \<Rightarrow>
           (case map_of m action of
              None \<Rightarrow> NotificationStrategyAlways
            | Some strategy \<Rightarrow> strategy))"
    by (simp add: strategy_of_def default_map_def split: option.splits)
  with validate_result_map [OF assms] show ?thesis by simp
qed

theorem normalized_default_map_is_complete_witness:
  "validateAndNormalizeNotificationStrategy (slack_backend None []) =
     (slack_backend (Some [(TaskValidationKey, NotificationStrategyAlways),
                           (TaskStateUpdateKey, NotificationStrategyAlways),
                           (TaskStepUpdateKey, NotificationStrategyAlways)]) [], None)
   \<and> TaskStepUpdateKey \<in> {TaskValidationKey, TaskStateUpdateKey, TaskStepUpdateKey}
   \<and> (\<exists>m'. DefaultNotificationStrategy
               (slack_backend (Some [(TaskValidationKey, NotificationStrategyAlways),
                           (TaskStateUpdateKey, NotificationStrategyAlways),
                           (TaskStepUpdateKey, NotificationStrategyAlways)]) []) = Some m' \<and>
           map_of m' TaskStepUpdateKey = Some NotificationStrategyAlways)"
proof -
  have h1: "validateAndNormalizeNotificationStrategy (slack_backend None []) =
     (slack_backend (Some [(TaskValidationKey, NotificationStrategyAlways),
                           (TaskStateUpdateKey, NotificationStrategyAlways),
                           (TaskStepUpdateKey, NotificationStrategyAlways)]) [], None)"
    by (simp add: validateAndNormalizeNotificationStrategy_def slack_backend_def
        validateStrategyForAction_def notify_consts Let_def)
  have h2: "TaskStepUpdateKey \<in> {TaskValidationKey, TaskStateUpdateKey, TaskStepUpdateKey}"
    by simp
  from normalized_default_map_is_complete [OF h1 h2] h1
  show ?thesis by (simp add: slack_backend_def)
qed

section \<open>Properties of authorization and routes\<close>

lemmas route_table =
  authRoutes_def templateRoutes_def functionRoutes_def taskRoutes_def commentsRoutes_def
  resolutionRoutes_def miscRoutes_def mk_route_def

text \<open>
  Claim C5, as stated, fails: IsResolutionManager first returns the plain error
  \<open>nil task\<close> when the task is nil, whoever the caller is. With no task, a caller who is an
  allowed resolver of the template is not granted access, and the error is not a
  Forbidden one.
\<close>

theorem resolution_manager_nil_task_counterexample:
  "IsTemplateOwner alice (Some sample_template) = None
   \<and> ListContainsString (AllowedResolverUsernames sample_template) (GetIdentity alice)
   \<and> IsResolutionManager alice (Some sample_template) None None = Some (Plain ''nil task'')
   \<and> IsResolutionManager alice (Some sample_template) None None
       \<noteq> Some (Forbidden ''User not authorized on this resolution'')"
  by (simp add: IsResolutionManager_def IsTemplateOwner_def ListContainsString_def
      GetIdentity_def alice_def sample_template_def)

text \<open>
  Claim C5, amended. For a task that is not nil, IsResolutionManager returns nil exactly
  when the caller's identity is among the template's allowed resolver usernames or the
  caller's groups meet the template's allowed resolver groups (for a template that is not
  nil), or the identity is among the task's resolver usernames, or it is the resolver
  username of the resolution (when there is one), or the caller's groups meet the task's
  resolver groups; in every other case it returns the Forbidden error. For a nil task it
  returns the plain error \<open>nil task\<close>.
\<close>

theorem resolution_manager_of_task:
  "IsResolutionManager c tt (Some tk) r =
     (if (case tt of
            None \<Rightarrow> False
          | Some tmpl \<Rightarrow>
              GetIdentity c \<in> set (AllowedResolverUsernames tmpl)
              \<or> set (AllowedResolverGroups tmpl) \<inter> set (GetGroups c) \<noteq> {})
         \<or> GetIdentity c \<in> set (ResolverUsernames tk)
         \<or> (case r of None \<Rightarrow> False | Some res \<Rightarrow> ResolverUsername res = GetIdentity c)
         \<or> set (ResolverGroups tk) \<inter> set (GetGroups c) \<noteq> {}
      then None
      else Some (Forbidden ''User not authorized on this resolution''))
   \<and> IsResolutionManager c tt None r = Some (Plain ''nil task'')"
  by (auto simp: IsResolutionManager_def IsTemplateOwner_def ListContainsString_def
      HasIntersection_def split: option.splits)

text \<open>
  Claim C7, as stated, fails: a caller who is not an admin is turned away from
  \<open>DELETE /task/:id\<close> with the status 401 (Unauthorized), not with 403 (Forbidden); the
  Forbidden error that IsAdmin returns is dropped by requireAdmin.
\<close>

theorem delete_task_not_forbidden_counterexample:
  "IsAdmin sample_admins (auth (sample_request alice)) \<noteq> None
   \<and> map_option status
         (serve sample_admins False default_authMiddleware sample_handlers
            ''DELETE'' ''/task/:id'' (sample_request alice)) = Some (Some StatusUnauthorized)
   \<and> map_option status
         (serve sample_admins False default_authMiddleware sample_handlers
            ''DELETE'' ''/task/:id'' (sample_request alice)) \<noteq> Some (Some StatusForbidden)"
  by (simp add: serve_def route_table guard_def requireAdmin_def IsAdmin_def
      ListContainsString_def HasIntersection_def GetIdentity_def GetGroups_def
      sample_admins_def sample_request_def alice_def StatusUnauthorized_def
      StatusForbidden_def default_authMiddleware_def)

text \<open>
  Claim C7, amended. For every request to \<open>DELETE /task/:id\<close> whose caller is not an admin
  (neither an admin username nor a member of an admin group), IsAdmin returns its
  Forbidden error and requireAdmin aborts the chain with the status 401 (Unauthorized):
  nothing else of the context changes, and the delete handler is not entered.
\<close>

theorem delete_task_requires_admin:
  assumes "GetIdentity (auth (authMiddleware c)) \<notin> set (adminUsers ast)"
    and "set (adminGroups ast) \<inter> set (GetGroups (auth (authMiddleware c))) = {}"
    and "\<not> aborted c" and "\<not> aborted (authMiddleware c)"
  shows "IsAdmin ast (auth (authMiddleware c)) = Some (Forbidden ''Not an admin user'')
       \<and> serve ast FMaintenanceMode authMiddleware handlers ''DELETE'' ''/task/:id'' c =
           Some ((authMiddleware c)\<lparr>aborted := True, status := Some StatusUnauthorized\<rparr>)
       \<and> map_option handled
           (serve ast FMaintenanceMode authMiddleware handlers ''DELETE'' ''/task/:id'' c)
           = Some (handled (authMiddleware c))"
proof -
  have "\<not> HasIntersection (adminGroups ast) (GetGroups (auth (authMiddleware c)))"
    using assms(2) by (auto simp: HasIntersection_def)
  then have "IsAdmin ast (auth (authMiddleware c)) = Some (Forbidden ''Not an admin user'')"
    using assms(1) by (simp add: IsAdmin_def ListContainsString_def)
  then show ?thesis
    using assms(3,4) by (simp add: serve_def route_table guard_def requireAdmin_def)
qed

theorem delete_task_requires_admin_witness:
  "GetIdentity (auth (default_authMiddleware (sample_request alice)))
     \<notin> set (adminUsers sample_admins)
   \<and> set (adminGroups sample_admins)
       \<inter> set (GetGroups (auth (default_authMiddleware (sample_request alice)))) = {}
   \<and> \<not> aborted (sample_request alice)
   \<and> \<not> aborted (default_authMiddleware (sample_request alice))
   \<and> serve sample_admins False default_authMiddleware sample_handlers ''DELETE'' ''/task/:id''
        (sample_request alice) =
        Some ((sample_request alice)\<lparr>aborted := True, status := Some StatusUnauthorized\<rparr>)"
proof -
  have h1: "GetIdentity (auth (default_authMiddleware (sample_request alice)))
     \<notin> set (adminUsers sample_admins)"
    and h2: "set (adminGroups sample_admins)
       \<inter> set (GetGroups (auth (default_authMiddleware (sample_request alice)))) = {}"
    by (simp_all add: GetIdentity_def GetGroups_def sample_admins_def sample_request_def
        alice_def default_authMiddleware_def)
  have h3: "\<not> aborted (sample_request alice)"
    and h4: "\<not> aborted (default_authMiddleware (sample_request alice))"
    by (simp_all add: sample_request_def default_authMiddleware_def)
  from delete_task_requires_admin
         [where ast = sample_admins and authMiddleware = default_authMiddleware
            and c = "sample_request alice" and FMaintenanceMode = False
            and handlers = sample_handlers, OF h1 h2 h3 h4] h1 h2 h3 h4
  show ?thesis by (simp add: default_authMiddleware_def)
qed

section \<open>Properties of taskutils\<close>

text \<open>
  Claim C2. For a template with \<open>blocked\<close> set, CreateTask returns the error
  \<open>Template not available (blocked)\<close> of the kind NotValid, which the error hook of the API
  answers with the status 400 (Bad Request), and it leaves the world as it found it: no
  operation of the store ran, so neither a task nor a resolution was created.
\<close>

theorem blocked_template_is_rejected:
  assumes "Blocked tt"
  shows "CreateTask ops ast c dbp tt watcherUsernames watcherGroups resolverUsernames
           resolverGroups input b comment delay tags
         = (Inl (NotValid ''Template not available (blocked)''), dbp)
       \<and> ErrHook (NotValid ''Template not available (blocked)'') = StatusBadRequest"
  using assms by (simp add: CreateTask_def ErrHook_def)

theorem blocked_template_is_rejected_witness:
  "Blocked blocked_template
   \<and> CreateTask mem_models sample_admins alice empty_db blocked_template [] [] [] [] () None
        ''please'' None None
       = (Inl (NotValid ''Template not available (blocked)''), empty_db)
   \<and> ErrHook (NotValid ''Template not available (blocked)'') = StatusBadRequest"
proof -
  have h: "Blocked blocked_template"
    by (simp add: blocked_template_def)
  from blocked_template_is_rejected [OF h, of mem_models sample_admins alice empty_db
         "[]" "[]" "[]" "[]" "()" None "''please''" None None] h
  show ?thesis by simp
qed

text \<open>
  Claim C3. For a finished task (done, abandoned or cancelled) that carries the tag of its
  parent and belongs to a batch: ShouldResumeParentTask returns a parent task only if the
  count of running tasks of the batch is zero, and when that count is not zero it returns
  \<open>(nil, nil)\<close>. When the count cannot be had, it returns no parent and the error of the
  query.
\<close>

theorem parent_resumes_only_without_running_siblings:
  assumes "State t = task_StateDone \<or> State t = task_StateWontfix
           \<or> State t = task_StateCancelled"
    and "Tags t = Some tags"
    and "map_of tags parentKey = Some parentTaskID"
    and "BatchID t = Some batchID"
  shows "(\<forall>p. fst (ShouldResumeParentTask ops parentKey dbp t) = Some p \<longrightarrow>
              RunningTasks ops dbp batchID = Inr 0)
       \<and> (\<forall>running. RunningTasks ops dbp batchID = Inr running \<and> running \<noteq> 0 \<longrightarrow>
              ShouldResumeParentTask ops parentKey dbp t = (None, None))
       \<and> (\<forall>err. RunningTasks ops dbp batchID = Inl err \<longrightarrow>
              ShouldResumeParentTask ops parentKey dbp t = (None, Some err))"
proof (cases "RunningTasks ops dbp batchID")
  case (Inl err)
  with assms have "ShouldResumeParentTask ops parentKey dbp t = (None, Some err)"
    by (auto simp: ShouldResumeParentTask_def batch_gate_def)
  with Inl show ?thesis by simp
next
  case (Inr running)
  show ?thesis
  proof (cases "running = 0")
    case True
    with Inr show ?thesis by simp
  next
    case False
    with Inr assms have "ShouldResumeParentTask ops parentKey dbp t = (None, None)"
      by (auto simp: ShouldResumeParentTask_def batch_gate_def)
    with Inr False show ?thesis by simp
  qed
qed

theorem parent_resumes_only_without_running_siblings_witness:
  "(State child_task = task_StateDone \<or> State child_task = task_StateWontfix
      \<or> State child_task = task_StateCancelled)
   \<and> Tags child_task = Some [(''_parent'', ''parent'')]
   \<and> map_of [(''_parent'', ''parent'')] ''_parent'' = Some ''parent''
   \<and> BatchID child_task = Some 7
   \<and> fst (ShouldResumeParentTask mem_models ''_parent'' family_db child_task) = Some parent_task
   \<and> RunningTasks mem_models family_db 7 = Inr 0"
proof -
  have h1: "State child_task = task_StateDone \<or> State child_task = task_StateWontfix
      \<or> State child_task = task_StateCancelled"
    by (simp add: child_task_def)
  have h2: "Tags child_task = Some [(''_parent'', ''parent'')]"
    by (simp add: child_task_def)
  have h3: "map_of [(''_parent'', ''parent'')] ''_parent'' = Some ''parent''"
    by simp
  have h4: "BatchID child_task = Some 7"
    by (simp add: child_task_def)
  have r: "fst (ShouldResumeParentTask mem_models ''_parent'' family_db child_task)
      = Some parent_task"
    by (simp add: ShouldResumeParentTask_def batch_gate_def load_parent_def mem_models_def
        mem_RunningTasks_def mem_task_Load_def mem_resolution_Load_def family_db_def
        child_task_def parent_task_def)
  note all = parent_resumes_only_without_running_siblings
               [OF h1 h2 h3 h4, of mem_models family_db]
  from all [THEN conjunct1, THEN spec, of parent_task]
  have "fst (ShouldResumeParentTask mem_models ''_parent'' family_db child_task)
          = Some parent_task \<longrightarrow> RunningTasks mem_models family_db 7 = Inr 0" .
  with r have "RunningTasks mem_models family_db 7 = Inr 0" by (rule rev_mp)
  with r h1 h2 h3 h4 show ?thesis by simp
qed

section \<open>Properties of Send\<close>

lemma checked_send_any:
  "Checked name \<in> set (send_any chk m reg) \<longleftrightarrow> name \<in> fst ` set reg"
  by (induction reg) (auto split: if_splits)

lemma sent_send_any:
  "Sent s name \<in> set (send_any chk m reg) \<longleftrightarrow>
     (\<exists>b. (name, b) \<in> set reg \<and> chk m b \<and> s = sender b)"
  by (induction reg) (auto split: if_splits)

lemma checked_send_named:
  "Checked name \<in> set (send_named chk m n reg) \<longleftrightarrow> name \<in> fst ` set reg \<and> name = n"
  by (induction reg) (auto split: if_splits)

lemma sent_send_named:
  "Sent s name \<in> set (send_named chk m n reg) \<longleftrightarrow>
     (\<exists>b. (name, b) \<in> set reg \<and> chk m b \<and> s = sender b) \<and> name = n"
  by (induction reg) (auto split: if_splits)

lemma checked_send_backends:
  "Checked name \<in> set (send_backends chk m ns reg) \<longleftrightarrow>
     name \<in> fst ` set reg \<and> name \<in> set ns"
  by (induction ns) (auto simp: checked_send_named)

lemma sent_send_backends:
  "Sent s name \<in> set (send_backends chk m ns reg) \<longleftrightarrow>
     (\<exists>b. (name, b) \<in> set reg \<and> chk m b \<and> s = sender b) \<and> name \<in> set ns"
  by (induction ns) (auto simp: sent_send_named)

text \<open>
  Claim C9. Send does nothing when the parameters are disabled. Otherwise, with an empty
  list of backends it asks \<open>checkIfDeliverMessage\<close> about every registered sender, and with
  a list that is not empty about exactly the registered senders whose name is in the list
  (a name that no sender is registered under adds nothing). A sender is sent the message
  exactly when it was asked about and \<open>checkIfDeliverMessage\<close> said yes.
\<close>

theorem send_selects_backends:
  "(Disabled params \<longrightarrow> Send chk reg m params = [])
   \<and> (\<not> Disabled params \<and> NotifyBackends params = [] \<longrightarrow>
        {name. Checked name \<in> set (Send chk reg m params)} = fst ` set reg)
   \<and> (\<not> Disabled params \<and> NotifyBackends params \<noteq> [] \<longrightarrow>
        {name. Checked name \<in> set (Send chk reg m params)}
          = fst ` set reg \<inter> set (NotifyBackends params))
   \<and> (\<not> Disabled params \<longrightarrow>
        (\<forall>s name. Sent s name \<in> set (Send chk reg m params) \<longleftrightarrow>
           Checked name \<in> set (Send chk reg m params)
           \<and> (\<exists>b. (name, b) \<in> set reg \<and> chk m b \<and> s = sender b)))"
  by (auto simp: Send_def checked_send_any sent_send_any checked_send_backends
        sent_send_backends image_iff Bex_def)

theorem send_selects_backends_witness:
  "\<not> Disabled chat_only \<and> NotifyBackends chat_only \<noteq> []
   \<and> fst ` set sample_registry \<inter> set (NotifyBackends chat_only) = {''chat''}
   \<and> {name. Checked name \<in> set (Send deliver_all sample_registry ''done'' chat_only)}
       = {''chat''}"
proof -
  have h1: "\<not> Disabled chat_only" and h2: "NotifyBackends chat_only \<noteq> []"
    by (simp_all add: chat_only_def)
  have h3: "fst ` set sample_registry \<inter> set (NotifyBackends chat_only) = {''chat''}"
    by (auto simp: sample_registry_def chat_only_def)
  from send_selects_backends [of chat_only deliver_all sample_registry "''done''"] h1 h2 h3
  show ?thesis by simp
qed

section \<open>Properties of Stats\<close>

lemma Split_not_Nil: "Split t sep \<noteq> []"
  by (induction t) (auto split: list.splits)

lemma Split_examples:
  "Split ''env=prod'' (CHR ''='') = [''env'', ''prod'']"
  "Split ''a=b=c'' (CHR ''='') = [''a'', ''b'', ''c'']"
  "Split ''novalue='' (CHR ''='') = [''novalue'', []]"
  "Split [] (CHR ''='') = [[]]"
  by simp_all

lemma Split_no_sep: "sep \<notin> set t \<Longrightarrow> Split t sep = [t]"
  by (induction t) auto

lemma Split_append:
  "sep \<notin> set k \<Longrightarrow> Split (k @ sep # v) sep = k # Split v sep"
  by (induction k) auto

lemma Split_Cons:
  "Split t sep = p # ps \<Longrightarrow>
   sep \<notin> set p \<and> (if ps = [] then t = p else \<exists>rest. t = p @ sep # rest \<and> Split rest sep = ps)"
proof (induction t arbitrary: p ps)
  case Nil
  then show ?case by simp
next
  case (Cons x xs)
  show ?case
  proof (cases "x = sep")
    case True
    with Cons.prems have "p = []" and "ps = Split xs sep" by simp_all
    with True show ?thesis using Split_not_Nil [of xs sep] by simp
  next
    case False
    obtain q qs where q: "Split xs sep = q # qs"
      using Split_not_Nil [of xs sep] by (cases "Split xs sep") auto
    with False Cons.prems have p: "p = x # q" and ps: "ps = qs" by simp_all
    from Cons.IH [OF q] False show ?thesis unfolding p ps by auto
  qed
qed

lemma Split_pair:
  "Split t sep = [k, v] \<longleftrightarrow> t = k @ sep # v \<and> sep \<notin> set k \<and> sep \<notin> set v"
proof
  assume a: "Split t sep = [k, v]"
  from Split_Cons [OF a] obtain rest where k: "sep \<notin> set k"
    and t: "t = k @ sep # rest" and r: "Split rest sep = [v]" by auto
  from Split_Cons [OF r] have "sep \<notin> set v" and "rest = v" by auto
  with k t show "t = k @ sep # v \<and> sep \<notin> set k \<and> sep \<notin> set v" by simp
next
  assume "t = k @ sep # v \<and> sep \<notin> set k \<and> sep \<notin> set v"
  then show "Split t sep = [k, v]"
    by (simp add: Split_append Split_no_sep)
qed

lemma tag_ok_iff:
  "tag_ok t \<longleftrightarrow> length (Split t (CHR ''='')) = 2 \<and> Split t (CHR ''='') ! 0 \<noteq> []
     \<and> Split t (CHR ''='') ! 1 \<noteq> []"
  by (auto simp: tag_ok_def split: list.splits)

lemma parse_tags_ok:
  "\<forall>t \<in> set ts. tag_ok t \<Longrightarrow>
   parse_tags ts acc =
     Inr (fold (\<lambda>t. AList.update (Split t (CHR ''='') ! 0) (Split t (CHR ''='') ! 1)) ts acc)"
  by (induction ts arbitrary: acc) (auto simp: tag_ok_iff Let_def)

lemma parse_tags_bad:
  "\<exists>t \<in> set ts. \<not> tag_ok t \<Longrightarrow>
   \<exists>t \<in> set ts. \<not> tag_ok t \<and> parse_tags ts acc = Inl (BadRequest (''invalid tag '' @ t))"
proof (induction ts arbitrary: acc)
  case Nil
  then show ?case by simp
next
  case (Cons t ts)
  show ?case
  proof (cases "tag_ok t")
    case True
    with Cons.prems have "\<exists>t \<in> set ts. \<not> tag_ok t" by simp
    from Cons.IH [OF this] True show ?thesis
      by (auto simp: tag_ok_iff Let_def)
  next
    case False
    then show ?thesis by (auto simp: tag_ok_iff Let_def)
  qed
qed

lemma map_of_fold_update:
  "map_of (fold (\<lambda>t. AList.update (f t) (g t)) ts acc) =
     map_of acc ++ map_of (rev (map (\<lambda>t. (f t, g t)) ts))"
proof (induction ts arbitrary: acc)
  case Nil
  then show ?case by simp
next
  case (Cons t ts)
  show ?case
    by (simp add: Cons.IH update_conv' map_add_def fun_eq_iff split: option.splits)
qed

lemma distinct_fold_update:
  "distinct (map fst acc) \<Longrightarrow>
   distinct (map fst (fold (\<lambda>t. AList.update (f t) (g t)) ts acc))"
  by (induction ts arbitrary: acc) (simp_all add: distinct_update)

text \<open>
  Claim C10, as stated, fails on two of the early returns of Stats. When no database
  provider can be had, Stats returns that error, whatever the tags are, so a malformed tag
  does not give a BadRequest error. And when all tags are well formed but the query for
  the counts fails, Stats returns the error of the query and no counts.
\<close>

theorem stats_other_errors_counterexample:
  "\<not> tag_ok ''bad''
   \<and> Stats (Inl (Plain ''no database'')) sample_load \<lparr>InTags = [''bad'']\<rparr>
       = Inl (Plain ''no database'')
   \<and> tag_ok ''env=prod''
   \<and> Stats (Inr ()) failing_load \<lparr>InTags = [''env=prod'']\<rparr> = Inl (Plain ''query failed'')"
  by (simp add: Stats_def tag_ok_def failing_load_def Let_def)

text \<open>
  Claim C10, amended. For every call to Stats in which the database provider is obtained:
  if some element of the tag list is not well formed (it does not split at \<open>=\<close> into
  exactly two parts that are not empty), Stats returns the BadRequest error
  \<open>invalid tag\<close> for such an element, and no statistics; otherwise it returns what
  \<open>task.LoadStateCount\<close> returns for the map of the parsed tags, the counts or the error
  of the query. In the map a key has the value of the last tag with that key. When the
  database provider is not obtained, Stats returns that error.
\<close>

theorem stats_rejects_malformed_tags:
  "((\<exists>t \<in> set (InTags inp). \<not> tag_ok t) \<longrightarrow>
      (\<exists>t \<in> set (InTags inp). \<not> tag_ok t \<and>
         Stats (Inr dbp) load inp = Inl (BadRequest (''invalid tag '' @ t))))
   \<and> ((\<forall>t \<in> set (InTags inp). tag_ok t) \<longrightarrow>
      (\<exists>tags. distinct (map fst tags)
         \<and> map_of tags =
             map_of (rev (map (\<lambda>t. (Split t (CHR ''='') ! 0, Split t (CHR ''='') ! 1))
                            (InTags inp)))
         \<and> Stats (Inr dbp) load inp =
             (case load dbp tags of
                Inl err \<Rightarrow> Inl err
              | Inr counts \<Rightarrow> Inr \<lparr>TaskStates = counts\<rparr>)))
   \<and> Stats (Inl err) load inp = Inl err"
proof (intro conjI impI)
  assume "\<exists>t \<in> set (InTags inp). \<not> tag_ok t"
  from parse_tags_bad [OF this, of "[]"]
  show "\<exists>t \<in> set (InTags inp). \<not> tag_ok t \<and>
         Stats (Inr dbp) load inp = Inl (BadRequest (''invalid tag '' @ t))"
    by (auto simp: Stats_def)
next
  let ?tags = "fold (\<lambda>t. AList.update (Split t (CHR ''='') ! 0) (Split t (CHR ''='') ! 1))
                 (InTags inp) []"
  assume "\<forall>t \<in> set (InTags inp). tag_ok t"
  from parse_tags_ok [OF this, of "[]"]
  have "Stats (Inr dbp) load inp =
          (case load dbp ?tags of
             Inl err \<Rightarrow> Inl err
           | Inr counts \<Rightarrow> Inr \<lparr>TaskStates = counts\<rparr>)"
    by (simp add: Stats_def)
  moreover have "distinct (map fst ?tags)"
    by (rule distinct_fold_update) simp
  moreover have "map_of ?tags =
      map_of (rev (map (\<lambda>t. (Split t (CHR ''='') ! 0, Split t (CHR ''='') ! 1)) (InTags inp)))"
    by (simp add: map_of_fold_update)
  ultimately show "\<exists>tags. distinct (map fst tags)
         \<and> map_of tags =
             map_of (rev (map (\<lambda>t. (Split t (CHR ''='') ! 0, Split t (CHR ''='') ! 1))
                            (InTags inp)))
         \<and> Stats (Inr dbp) load inp =
             (case load dbp tags of
                Inl err \<Rightarrow> Inl err
              | Inr counts \<Rightarrow> Inr \<lparr>TaskStates = counts\<rparr>)"
    by blast
next
  show "Stats (Inl err) load inp = Inl err"
    by (simp add: Stats_def)
qed

theorem stats_rejects_malformed_tags_witness:
  "tag_ok ''env=prod'' \<and> \<not> tag_ok ''bad''
   \<and> Stats (Inr ()) sample_load \<lparr>InTags = [''env=prod'', ''bad'']\<rparr>
       = Inl (BadRequest ''invalid tag bad'')
   \<and> (\<exists>tags. map_of tags = map_of [(''env'', ''prod'')]
         \<and> Stats (Inr ()) sample_load \<lparr>InTags = [''env=prod'']\<rparr> = Inr \<lparr>TaskStates = tags\<rparr>)"
proof -
  have h1: "tag_ok ''env=prod''" and h2: "\<not> tag_ok ''bad''"
    by (simp_all add: tag_ok_def)
  from stats_rejects_malformed_tags
         [of "\<lparr>InTags = [''env=prod'', ''bad'']\<rparr>" "()" sample_load "Plain ''none''"] h1 h2
  have a: "Stats (Inr ()) sample_load \<lparr>InTags = [''env=prod'', ''bad'']\<rparr>
       = Inl (BadRequest ''invalid tag bad'')"
    by simp
  from stats_rejects_malformed_tags
         [of "\<lparr>InTags = [''env=prod'']\<rparr>" "()" sample_load "Plain ''none''"] h1
  have b: "\<exists>tags. map_of tags = map_of [(''env'', ''prod'')]
         \<and> Stats (Inr ()) sample_load \<lparr>InTags = [''env=prod'']\<rparr> = Inr \<lparr>TaskStates = tags\<rparr>"
    by (auto simp: sample_load_def)
  from h1 h2 a b show ?thesis by simp
qed

section \<open>Properties of the metrics\<close>

lemma gauge_set_other [simp]:
  "gaugeName (gauge_set g k v) = gaugeName g" "labelNames (gauge_set g k v) = labelNames g"
  by (simp_all add: gauge_set_def)

lemma gauge_set_lookup:
  "map_of (series (gauge_set g k v)) k' = (if k' = k then Some v else map_of (series g) k')"
  by (simp add: gauge_set_def update_conv')

lemma set_states_other:
  "t' \<noteq> t \<or> g' \<noteq> grp \<or> s' \<notin> fst ` set ts \<Longrightarrow>
   map_of (series (set_states grp t ts g)) [s', t', g'] = map_of (series g) [s', t', g']"
  by (induction ts arbitrary: g) (auto simp: gauge_set_lookup)

lemma set_states_names [simp]:
  "gaugeName (set_states grp t ts g) = gaugeName g"
  "labelNames (set_states grp t ts g) = labelNames g"
  by (induction ts arbitrary: g) auto

lemma set_states_value:
  "distinct (map fst ts) \<Longrightarrow> (s, c) \<in> set ts \<Longrightarrow>
   map_of (series (set_states grp t ts g)) [s, t, grp] = Some c"
proof (induction ts arbitrary: g)
  case Nil
  then show ?case by simp
next
  case (Cons x ts)
  obtain s0 c0 where x: "x = (s0, c0)" by (cases x)
  show ?case
  proof (cases "(s, c) = (s0, c0)")
    case True
    with Cons.prems x have "s \<notin> fst ` set ts" by auto
    then show ?thesis
      using True x by (simp add: set_states_other gauge_set_lookup)
  next
    case False
    with Cons.prems x have "(s, c) \<in> set ts" and "distinct (map fst ts)" by auto
    from Cons.IH [OF this(2,1)] show ?thesis using x by simp
  qed
qed

lemma set_templates_other:
  "g' \<noteq> grp \<or> t' \<notin> fst ` set gs \<Longrightarrow>
   map_of (series (set_templates grp gs g)) [s', t', g'] = map_of (series g) [s', t', g']"
proof (induction gs arbitrary: g)
  case Nil
  then show ?case by simp
next
  case (Cons x gs)
  obtain t0 ts0 where x: "x = (t0, ts0)" by (cases x)
  from Cons.prems x have a: "g' \<noteq> grp \<or> t' \<notin> fst ` set gs" and b: "t' \<noteq> t0 \<or> g' \<noteq> grp"
    by auto
  show ?case
    unfolding x using Cons.IH [OF a] set_states_other [of t' t0 g' grp s' ts0 g] b by auto
qed

lemma set_templates_names [simp]:
  "gaugeName (set_templates grp gs g) = gaugeName g"
  "labelNames (set_templates grp gs g) = labelNames g"
  by (induction gs arbitrary: g) auto

lemma set_templates_value:
  "distinct (map fst gs) \<Longrightarrow> (t, ts) \<in> set gs \<Longrightarrow> distinct (map fst ts) \<Longrightarrow>
   (s, c) \<in> set ts \<Longrightarrow>
   map_of (series (set_templates grp gs g)) [s, t, grp] = Some c"
proof (induction gs arbitrary: g)
  case Nil
  then show ?case by simp
next
  case (Cons x gs)
  obtain t0 ts0 where x: "x = (t0, ts0)" by (cases x)
  show ?case
  proof (cases "(t, ts) = (t0, ts0)")
    case True
    with Cons.prems x have "t \<notin> fst ` set gs" by auto
    then show ?thesis
      using True x Cons.prems(3,4) by (simp add: set_templates_other set_states_value)
  next
    case False
    with Cons.prems x have "(t, ts) \<in> set gs" and "distinct (map fst gs)" by auto
    from Cons.IH [OF this(2,1) Cons.prems(3,4)] show ?thesis using x by simp
  qed
qed

lemma set_groups_other:
  "g' \<notin> fst ` set stats \<Longrightarrow>
   map_of (series (set_groups stats g)) [s', t', g'] = map_of (series g) [s', t', g']"
proof (induction stats arbitrary: g)
  case Nil
  then show ?case by simp
next
  case (Cons x stats)
  obtain g0 gs0 where x: "x = (g0, gs0)" by (cases x)
  from Cons.prems x have a: "g' \<notin> fst ` set stats" and b: "g' \<noteq> g0" by auto
  show ?case
    unfolding x using Cons.IH [OF a] b by (simp add: set_templates_other)
qed

lemma set_groups_names [simp]:
  "gaugeName (set_groups stats g) = gaugeName g"
  "labelNames (set_groups stats g) = labelNames g"
  by (induction stats arbitrary: g) auto

lemma set_groups_value:
  "distinct (map fst stats) \<Longrightarrow> (grp, gs) \<in> set stats \<Longrightarrow> distinct (map fst gs) \<Longrightarrow>
   (t, ts) \<in> set gs \<Longrightarrow> distinct (map fst ts) \<Longrightarrow> (s, c) \<in> set ts \<Longrightarrow>
   map_of (series (set_groups stats g)) [s, t, grp] = Some c"
proof (induction stats arbitrary: g)
  case Nil
  then show ?case by simp
next
  case (Cons x stats)
  obtain g0 gs0 where x: "x = (g0, gs0)" by (cases x)
  show ?case
  proof (cases "(grp, gs) = (g0, gs0)")
    case True
    with Cons.prems x have "grp \<notin> fst ` set stats" by auto
    then show ?thesis
      using True x Cons.prems(3-6) by (simp add: set_groups_other set_templates_value)
  next
    case False
    with Cons.prems x have "(grp, gs) \<in> set stats" and "distinct (map fst stats)" by auto
    from Cons.IH [OF this(2,1) Cons.prems(3-6)] show ?thesis using x by simp
  qed
qed

lemma updateMetrics_names [simp]:
  "gaugeName (gauge (updateMetrics loaded st)) = gaugeName (gauge st)"
  "labelNames (gauge (updateMetrics loaded st)) = labelNames (gauge st)"
  "tick (updateMetrics loaded st) = tick st"
  by (cases loaded; simp add: updateMetrics_def)+

lemma metrics_loop_names:
  "gaugeName (gauge (metrics_loop es st)) = gaugeName (gauge st)"
  "labelNames (gauge (metrics_loop es st)) = labelNames (gauge st)"
  by (induction es st rule: metrics_loop.induct) simp_all

lemma metrics_loop_tick: "tick (metrics_loop (map TickC ticks) st) = tick st"
  by (induction ticks arbitrary: st) simp_all

text \<open>
  Claim C4, as stated, fails on a label: the labels of the gauge \<open>utask_task_state\<close> are
  \<open>status\<close>, \<open>template\<close> and \<open>group\<close>; there is no label \<open>state\<close>.
\<close>

theorem gauge_labels_counterexample:
  "labelNames (metrics :: nat GaugeVec) = [''status'', ''template'', ''group'']
   \<and> labelNames (metrics :: nat GaugeVec) \<noteq> [''state'', ''template'', ''group'']"
  by (simp add: metrics_def)

text \<open>
  Claim C4, amended. The gauge is named \<open>utask_task_state\<close> and has the labels \<open>status\<close>,
  \<open>template\<close> and \<open>group\<close>, and collecting keeps both. collectMetrics updates the gauge
  once and then at every tick of the ticker it makes, whose period is 5 seconds, until
  the context is done, where the ticker is stopped. An update sets, for each count that the aggregation query returns for a
  resolver group, a template and a state, the series with the label values state,
  template, group (in the order of the labels) to that count; the keys of each of the
  three nested maps are distinct, as the keys of a Go map are.
\<close>

theorem gauge_follows_aggregation:
  assumes "distinct (map fst stats)"
    and "(grp, groupStats) \<in> set stats"
    and "distinct (map fst groupStats)"
    and "(template, templateStats) \<in> set groupStats"
    and "distinct (map fst templateStats)"
    and "(state, count) \<in> set templateStats"
  shows "gaugeName (metrics :: 'v GaugeVec) = ''utask_task_state''
       \<and> labelNames (metrics :: 'v GaugeVec) = [''status'', ''template'', ''group'']
       \<and> gaugeName (gauge (collectMetrics None loaded events (st :: 'v metrics_state)))
           = gaugeName (gauge st)
       \<and> labelNames (gauge (collectMetrics None loaded events st)) = labelNames (gauge st)
       \<and> tick (collectMetrics None loaded (map TickC ticks) st) = Ticking 5
       \<and> collectMetrics None loaded (TickC (stats, err) # events) st
           = metrics_loop events
               (updateMetrics (stats, err) (updateMetrics loaded (st\<lparr>tick := Ticking 5\<rparr>)))
       \<and> collectMetrics None loaded (CtxDone # events) st
           = (updateMetrics loaded st)\<lparr>tick := Stopped\<rparr>
       \<and> map_of (series (gauge (updateMetrics (stats, err) st))) [state, template, grp]
           = Some count"
proof -
  have "gaugeName (gauge (collectMetrics None loaded events st)) = gaugeName (gauge st)"
    and "labelNames (gauge (collectMetrics None loaded events st)) = labelNames (gauge st)"
    by (simp_all add: collectMetrics_def metrics_loop_names)
  moreover have "tick (collectMetrics None loaded (map TickC ticks) st) = Ticking 5"
    by (simp add: collectMetrics_def metrics_loop_tick)
  moreover have "map_of (series (gauge (updateMetrics (stats, err) st)))
      [state, template, grp] = Some count"
    using set_groups_value [OF assms] by (simp add: updateMetrics_def)
  moreover have "collectMetrics None loaded (CtxDone # events) st
           = (updateMetrics loaded st)\<lparr>tick := Stopped\<rparr>"
    by (cases loaded) (simp add: collectMetrics_def updateMetrics_def split: option.splits)
  ultimately show ?thesis
    by (simp add: metrics_def collectMetrics_def)
qed

theorem gauge_follows_aggregation_witness:
  "distinct (map fst sample_stats)
   \<and> (''dev'', [(''hello'', [(''DONE'', 3), (''TODO'', 1)])]) \<in> set sample_stats
   \<and> distinct (map fst [(''hello'', [(''DONE'', 3::nat), (''TODO'', 1)])])
   \<and> (''hello'', [(''DONE'', 3::nat), (''TODO'', 1)])
        \<in> set [(''hello'', [(''DONE'', 3::nat), (''TODO'', 1)])]
   \<and> distinct (map fst [(''DONE'', 3::nat), (''TODO'', 1)])
   \<and> (''DONE'', 3::nat) \<in> set [(''DONE'', 3::nat), (''TODO'', 1)]
   \<and> map_of (series (gauge (updateMetrics (sample_stats, None) metrics_start)))
        [''DONE'', ''hello'', ''dev''] = Some 3"
proof -
  have h1: "distinct (map fst sample_stats)"
    and h2: "(''dev'', [(''hello'', [(''DONE'', 3), (''TODO'', 1)])]) \<in> set sample_stats"
    by (simp_all add: sample_stats_def)
  have h3: "distinct (map fst [(''hello'', [(''DONE'', 3::nat), (''TODO'', 1)])])"
    and h4: "(''hello'', [(''DONE'', 3::nat), (''TODO'', 1)])
        \<in> set [(''hello'', [(''DONE'', 3::nat), (''TODO'', 1)])]"
    and h5: "distinct (map fst [(''DONE'', 3::nat), (''TODO'', 1)])"
    and h6: "(''DONE'', 3::nat) \<in> set [(''DONE'', 3::nat), (''TODO'', 1)]"
    by simp_all
  from gauge_follows_aggregation
         [OF h1 h2 h3 h4 h5 h6, of "([], None)" "[]" metrics_start "[]" None]
    h1 h2 h3 h4 h5 h6
  show ?thesis by simp
qed

end
